theory Spec2Isabelle
  imports Complex_Main "HOL-Library.AList"
begin

section \<open>Python values and builtins used by \<open>models.py\<close>\<close>

text \<open>
  Exceptions are values: every function of the model that can raise returns
  \<open>error + 'a\<close>, with \<open>Inl\<close> the exception.
  \<^item> \<open>KeyError\<close>/\<open>TypeError\<close>: a subscript on a missing key, a comparison with \<open>None\<close>;
  \<^item> \<open>AttributeError\<close>: a method called on \<open>None\<close>;
  \<^item> \<open>ValueError\<close>: \<open>int(s)\<close> on a string that is no integer literal;
  \<^item> \<open>ZeroDivisionError\<close>: \<open>a / 0\<close>;
  \<^item> \<open>MultipleResultsFound\<close>: SQLAlchemy's \<open>one_or_none()\<close> on more than one row;
  \<^item> \<open>FlushError\<close>: SQLAlchemy's commit of a transaction whose session does not get
    clean by flushing.
\<close>

datatype error =
    KeyError | TypeError | AttributeError | ValueError
  | ZeroDivisionError | MultipleResultsFound | FlushError

definition raise_bind :: "error + 'a \<Rightarrow> ('a \<Rightarrow> error + 'b) \<Rightarrow> error + 'b" where
  "raise_bind m f = (case m of Inl e \<Rightarrow> Inl e | Inr x \<Rightarrow> f x)"

subsection \<open>Truthiness\<close>

text \<open>
  \<open>j.get(k)\<close> is \<open>None\<close> both when the key is absent and when its value is JSON \<open>null\<close>;
  a field read that way is an \<open>option\<close>. \<open>if v:\<close> is false for \<open>None\<close>, for the
  integer \<open>0\<close>, for the empty string and for the empty list.
\<close>

definition truthy_int :: "int option \<Rightarrow> bool" where
  "truthy_int v = (case v of None \<Rightarrow> False | Some n \<Rightarrow> n \<noteq> 0)"

definition truthy_str :: "string option \<Rightarrow> bool" where
  "truthy_str v = (case v of None \<Rightarrow> False | Some s \<Rightarrow> s \<noteq> [])"

subsection \<open>\<open>str(int)\<close>, \<open>int(str)\<close>, \<open>str.split()\<close>, \<open>str.join\<close>\<close>

definition digit_char :: "nat \<Rightarrow> char" where
  "digit_char d = char_of (48 + d)"

definition is_digit :: "char \<Rightarrow> bool" where
  "is_digit c = (48 \<le> (of_char c :: nat) \<and> (of_char c :: nat) \<le> 57)"

definition digit_val :: "char \<Rightarrow> nat" where
  "digit_val c = of_char c - 48"

text \<open>The characters \<open>str.isspace\<close> accepts, among the first 256 code points.\<close>

definition isspace :: "char \<Rightarrow> bool" where
  "isspace c = ((of_char c :: nat) \<in> {9, 10, 11, 12, 13, 28, 29, 30, 31, 32, 133, 160})"

function digits :: "nat \<Rightarrow> string" where
  "digits n = (if n < 10 then [digit_char n] else digits (n div 10) @ [digit_char (n mod 10)])"
  by pat_completeness auto
termination
  by (relation "measure (\<lambda>n. n)") auto

declare digits.simps [simp del]

text \<open>\<open>str(n)\<close> for a Python integer: decimal digits, a minus sign when negative.\<close>

definition py_str :: "int \<Rightarrow> string" where
  "py_str i = (if i < 0 then CHR ''-'' # digits (nat (- i)) else digits (nat i))"

text \<open>
  The digit part of an integer literal as \<open>int()\<close> reads it: decimal digits, single
  underscores allowed between two digits. \<open>acc\<close> is the value read so far.
\<close>

fun int_digits :: "nat \<Rightarrow> string \<Rightarrow> nat option" where
  "int_digits acc [] = Some acc"
| "int_digits acc (c # cs) =
     (if is_digit c then int_digits (acc * 10 + digit_val c) cs
      else if c = CHR ''_'' then
        (case cs of
           [] \<Rightarrow> None
         | d # ds \<Rightarrow> if is_digit d then int_digits (acc * 10 + digit_val d) ds else None)
      else None)"

definition int_unsigned :: "string \<Rightarrow> nat option" where
  "int_unsigned s =
     (case s of [] \<Rightarrow> None
      | c # cs \<Rightarrow> if is_digit c then int_digits (digit_val c) cs else None)"

definition py_strip :: "string \<Rightarrow> string" where
  "py_strip s = rev (dropWhile isspace (rev (dropWhile isspace s)))"

text \<open>\<open>int(s)\<close>: surrounding whitespace is dropped, one sign is allowed.\<close>

definition py_int :: "string \<Rightarrow> error + int" where
  "py_int s =
     (case py_strip s of
        [] \<Rightarrow> Inl ValueError
      | c # cs \<Rightarrow>
          if c = CHR ''-'' then
            (case int_unsigned cs of None \<Rightarrow> Inl ValueError | Some n \<Rightarrow> Inr (- int n))
          else if c = CHR ''+'' then
            (case int_unsigned cs of None \<Rightarrow> Inl ValueError | Some n \<Rightarrow> Inr (int n))
          else
            (case int_unsigned (c # cs) of None \<Rightarrow> Inl ValueError | Some n \<Rightarrow> Inr (int n)))"

text \<open>\<open>list(map(int, ws))\<close>: the first string that is no integer raises.\<close>

fun map_int :: "string list \<Rightarrow> error + int list" where
  "map_int [] = Inr []"
| "map_int (w # ws) =
     raise_bind (py_int w) (\<lambda>n. raise_bind (map_int ws) (\<lambda>ns. Inr (n # ns)))"

text \<open>
  \<open>s.split()\<close> without a separator: the maximal runs of non-whitespace characters.
  \<open>cur\<close> is the run being read.
\<close>

fun split_run :: "string \<Rightarrow> string \<Rightarrow> string list" where
  "split_run cur [] = (if cur = [] then [] else [cur])"
| "split_run cur (c # cs) =
     (if isspace c then (if cur = [] then split_run [] cs else cur # split_run [] cs)
      else split_run (cur @ [c]) cs)"

definition py_split :: "string \<Rightarrow> string list" where
  "py_split s = split_run [] s"

fun py_join :: "string \<Rightarrow> string list \<Rightarrow> string" where
  "py_join sep [] = []"
| "py_join sep [w] = w"
| "py_join sep (w # v # ws) = w @ sep @ py_join sep (v # ws)"

subsection \<open>True division and \<open>round\<close>\<close>

text \<open>
  A Python \<open>float\<close> is an IEEE 754 binary64 number; the model holds its exact value,
  a rational. \<open>to_double q\<close> is the binary64 number nearest to \<open>q\<close>, ties to the
  even significand: 53 significant bits from the exponent \<open>float_exponent q\<close> (the
  largest \<open>e\<close> with \<open>2 ^ e \<le> \<bar>q\<bar>\<close>), and below \<open>2 ^ - 1022\<close> the fixed
  spacing \<open>2 ^ - 1074\<close> of the subnormal numbers. The upper end of the range is not
  modelled: beyond about \<open>1.8e308\<close>, which takes a count of more than 300 digits,
  Python raises \<open>OverflowError\<close>.
\<close>

definition round_half_even :: "rat \<Rightarrow> int" where
  "round_half_even y =
     (let f = \<lfloor>y\<rfloor>; d = y - of_int f
      in if d < 1 / 2 then f else if 1 / 2 < d then f + 1
         else if even f then f else f + 1)"

definition pow2 :: "int \<Rightarrow> rat" where
  "pow2 e = (if 0 \<le> e then 2 ^ nat e else 1 / 2 ^ nat (- e))"

text \<open>\<open>int.bit_length\<close> on a positive integer.\<close>

function bit_length :: "int \<Rightarrow> int" where
  "bit_length n = (if n \<le> 0 then 0 else 1 + bit_length (n div 2))"
  by pat_completeness auto
termination
  by (relation "measure nat") auto

declare bit_length.simps [simp del]

definition float_exponent :: "rat \<Rightarrow> int" where
  "float_exponent q =
     (let (a, b) = quotient_of \<bar>q\<bar>;
          d = bit_length a - bit_length b
      in if \<bar>q\<bar> < pow2 d then d - 1 else d)"

definition to_double :: "rat \<Rightarrow> rat" where
  "to_double q =
     (if q = 0 then 0
      else (let e = max (float_exponent q) (- 1022); ulp = pow2 (e - 52)
            in of_int (round_half_even (q / ulp)) * ulp))"

text \<open>
  \<open>a / b\<close> on integers raises on a zero divisor and is otherwise the correctly
  rounded quotient.
\<close>

definition py_truediv :: "int \<Rightarrow> int \<Rightarrow> error + rat" where
  "py_truediv a b =
     (if b = 0 then Inl ZeroDivisionError else Inr (to_double (of_int a / of_int b)))"

text \<open>
  \<open>round(x, n)\<close> on a float: the exact value of \<open>x\<close> is rounded to \<open>n\<close> decimals,
  an exact tie to the even digit, and the decimal is read back as a float.
\<close>

definition py_round :: "rat \<Rightarrow> nat \<Rightarrow> rat" where
  "py_round x n = to_double (of_int (round_half_even (x * 10 ^ n)) / 10 ^ n)"


section \<open>The data model\<close>

subsection \<open>JSON input\<close>

text \<open>
  The items the remote client returns. A field the code reads with \<open>.get\<close> is an
  \<open>option\<close> (\<open>None\<close>: absent or \<open>null\<close>); a field read by subscript is
  required. \<open>j_tags\<close> is \<open>[]\<close> when the key is absent: \<open>if j.get('tags')\<close> does not
  tell the two apart.
\<close>

record tag_json =
  name :: string
  translated_name :: "string option"

record image_urls_json =
  u_square_medium :: string
  u_medium :: string
  u_large :: string
  u_original :: string

record works_json =
  j_id :: int
  j_user_id :: int
  j_type :: "string option"
  j_title :: "string option"
  j_page_count :: "int option"
  j_total_view :: "int option"
  j_total_bookmarks :: "int option"
  j_is_bookmarked :: "bool option"
  j_caption :: "string option"
  j_tags :: "tag_json list"
  j_create_date :: "string option"
  j_meta_pages :: "image_urls_json list"
  j_meta_single_page :: "string option"
  j_image_urls :: image_urls_json

text \<open>
  \<open>j_meta_pages\<close> holds \<open>u['image_urls']\<close> of each page, \<open>j_meta_single_page\<close> the
  \<open>original_image_url\<close> of a non-empty \<open>meta_single_page\<close> (\<open>None\<close> for \<open>{}\<close>).
  Of the top-level \<open>j_image_urls\<close> the code reads three sizes only.
\<close>

record ugoira_json =
  frames :: "int list"
  zip_url_medium :: "string option"

record user_json =
  uj_id :: int
  uj_name :: "string option"
  uj_account :: "string option"
  uj_is_followed :: "bool option"
  uj_profile_image_medium :: "string option"
  uj_comment :: "string option"
  p_total_illusts :: "int option"
  p_total_manga :: "int option"
  p_total_novels :: "int option"
  p_total_illust_bookmarks_public :: "int option"
  p_total_follow_users :: "int option"
  p_background_image_url :: "string option"

subsection \<open>Rows\<close>

record tag_translation =
  tt_tag_id :: nat
  language :: string
  translation_text :: string

record tag =
  tag_id :: nat
  tag_text :: string
  translation :: "tag_translation list"

text \<open>
  \<open>tags\<close> of a work is its list of \<open>Tag\<close> objects, by reference (an index into
  \<open>tag_objects\<close> below). \<open>insert_date\<close> is filled by the database at INSERT
  (\<open>datetime.now\<close>) and \<open>is_downloaded\<close> by the downloader: \<open>from_json\<close> writes neither.
\<close>

record works =
  works_id :: int
  author_id :: int
  works_type :: "string option"
  title :: "string option"
  page_count :: "int option"
  total_views :: "int option"
  total_bookmarks :: "int option"
  is_bookmarked :: "bool option"
  is_downloaded :: "bool option"
  bookmark_rate :: "rat option"
  create_date :: "int option"
  insert_date :: "int option"
  tags :: "nat list"

record works_local =
  local_id :: "nat option"
  wl_works_id :: int

record user =
  u_local_id :: "nat option"
  user_id :: int
  u_name :: "string option"
  account :: "string option"
  is_followed :: "bool option"
  u_insert_date :: "int option"

record user_detail =
  ud_user_id :: int
  total_illusts :: "int option"
  total_manga :: "int option"
  total_novels :: "int option"
  total_illust_bookmarks_public :: "int option"
  total_follow_users :: "int option"
  avatar_url :: "string option"
  background_url :: "string option"
  comment :: "string option"

text \<open>\<open>memo_delay\<close> is the attribute \<open>_delay\<close>: not a column, \<open>[]\<close> from the class.\<close>

record ugoira =
  ug_works_id :: int
  delay_text :: "string option"
  zip_url :: "string option"
  memo_delay :: "int list"

record works_image_urls =
  wi_works_id :: int
  page :: int
  square_medium :: "string option"
  medium :: "string option"
  large :: "string option"
  original :: "string option"

record works_caption =
  wc_works_id :: int
  caption_text :: "string option"

subsection \<open>The session\<close>

text \<open>
  The state the ingestion path threads: the \<open>Tag\<close> objects of the process
  (\<open>tag_objects\<close>, a reference is an index: the tag cache holds references, and a
  cached object is the very object of the session), and the tables as a session made by
  \<open>sessionmaker()\<close> sees them (\<open>cli.py\<close> line 117): \<open>autoflush\<close> is on, so a query
  first flushes and then sees the pending rows too. A table is a list of rows in
  insertion order; \<open>tags_tbl\<close> lists the \<open>Tag\<close> objects of the session.

  The auto-increment keys \<open>local_id\<close> are \<open>None\<close> on a pending row; \<open>flush\<close>
  numbers the pending rows in the order they were added, from one above the largest key
  of the table. Constraint violations at INSERT are outside the model.
\<close>

record state =
  tag_objects :: "tag list"
  works_tbl :: "works list"
  works_local_tbl :: "works_local list"
  users_tbl :: "user list"
  users_details_tbl :: "user_detail list"
  ugoiras_tbl :: "ugoira list"
  works_image_urls_tbl :: "works_image_urls list"
  works_captions_tbl :: "works_caption list"
  tags_tbl :: "nat list"

text \<open>
  The tag cache, a dictionary from tag text to \<open>Tag\<close> object: the list of its items
  in insertion order, one item per key.
\<close>

type_synonym cache = "(string \<times> nat) list"

definition max_id :: "nat option list \<Rightarrow> nat" where
  "max_id ids = fold (\<lambda>i m. case i of None \<Rightarrow> m | Some k \<Rightarrow> max k m) ids 0"

fun assign_ids :: "('a \<Rightarrow> nat option) \<Rightarrow> (nat \<Rightarrow> 'a \<Rightarrow> 'a) \<Rightarrow> nat \<Rightarrow> 'a list \<Rightarrow> 'a list" where
  "assign_ids get put n [] = []"
| "assign_ids get put n (r # rs) =
     (case get r of
        Some k \<Rightarrow> r # assign_ids get put n rs
      | None \<Rightarrow> put n r # assign_ids get put (Suc n) rs)"

definition flush :: "state \<Rightarrow> state" where
  "flush s = s\<lparr>
     works_local_tbl :=
       assign_ids local_id (\<lambda>n r. r\<lparr>local_id := Some n\<rparr>)
         (Suc (max_id (map local_id (works_local_tbl s)))) (works_local_tbl s),
     users_tbl :=
       assign_ids u_local_id (\<lambda>n r. r\<lparr>u_local_id := Some n\<rparr>)
         (Suc (max_id (map u_local_id (users_tbl s)))) (users_tbl s)\<rparr>"

text \<open>\<open>Query.one_or_none()\<close> on the rows the filter selected.\<close>

definition one_or_none :: "'a list \<Rightarrow> error + 'a option" where
  "one_or_none rows =
     (case rows of [] \<Rightarrow> Inr None | [x] \<Rightarrow> Inr (Some x) | _ # _ # _ \<Rightarrow> Inl MultipleResultsFound)"

text \<open>
  The identity map holds one object per primary key, so an attribute written on an
  object of the session is written on the row with its key (\<open>replace_row\<close>; nothing
  happens when the object is not in the session). An object that reaches the session
  through a relationship of a \<open>Works\<close> or \<open>User\<close> of the session (the save-update
  cascade) is appended unless its row is there already (\<open>attach_row\<close>).
\<close>

definition replace_row :: "('a \<Rightarrow> 'k) \<Rightarrow> 'a \<Rightarrow> 'a list \<Rightarrow> 'a list" where
  "replace_row key obj rows = map (\<lambda>r. if key r = key obj then obj else r) rows"

definition attach_row :: "('a \<Rightarrow> 'k) \<Rightarrow> 'a \<Rightarrow> 'a list \<Rightarrow> 'a list" where
  "attach_row key obj rows =
     (if key obj \<in> set (map key rows) then replace_row key obj rows else rows @ [obj])"


section \<open>The operations of \<open>models.py\<close>\<close>

subsection \<open>\<open>WorksLocal\<close>\<close>

definition WorksLocal_create_if_not_exist :: "state \<Rightarrow> int \<Rightarrow> error + (works_local \<times> state)" where
  "WorksLocal_create_if_not_exist session wid =
     (let s1 = flush session in
      raise_bind (one_or_none (filter (\<lambda>r. wl_works_id r = wid) (works_local_tbl s1)))
        (\<lambda>w. case w of
           None \<Rightarrow>
             (let w = \<lparr>local_id = None, wl_works_id = wid\<rparr>
              in Inr (w, s1\<lparr>works_local_tbl := works_local_tbl s1 @ [w]\<rparr>))
         | Some w \<Rightarrow> Inr (w, s1)))"

subsection \<open>\<open>WorksCaption\<close>\<close>

definition WorksCaption_get_by_id :: "state \<Rightarrow> int \<Rightarrow> bool \<Rightarrow> error + (works_caption \<times> state)" where
  "WorksCaption_get_by_id session wid save_to_session =
     (let s1 = flush session in
      raise_bind (one_or_none (filter (\<lambda>r. wc_works_id r = wid) (works_captions_tbl s1)))
        (\<lambda>obj. case obj of
           None \<Rightarrow>
             (let obj = \<lparr>wc_works_id = wid, caption_text = None\<rparr>
              in Inr (obj, if save_to_session
                         then s1\<lparr>works_captions_tbl := works_captions_tbl s1 @ [obj]\<rparr> else s1))
         | Some obj \<Rightarrow> Inr (obj, s1)))"

subsection \<open>\<open>WorksImageURLs\<close>\<close>

definition wi_key :: "works_image_urls \<Rightarrow> int \<times> int" where
  "wi_key r = (wi_works_id r, page r)"

definition WorksImageURLs_get_by_id ::
  "state \<Rightarrow> int \<Rightarrow> int \<Rightarrow> bool \<Rightarrow> bool \<Rightarrow> error + (works_image_urls option \<times> state)" where
  "WorksImageURLs_get_by_id session wid pg create_if_not_exist save_to_session =
     (let s1 = flush session in
      raise_bind (one_or_none (filter (\<lambda>r. wi_works_id r = wid \<and> page r = pg) (works_image_urls_tbl s1)))
        (\<lambda>obj. case obj of
           None \<Rightarrow>
             if create_if_not_exist then
               (let obj = \<lparr>wi_works_id = wid, page = pg, square_medium = None, medium = None,
                         large = None, original = None\<rparr>
                in Inr (Some obj, if save_to_session
                                then s1\<lparr>works_image_urls_tbl := works_image_urls_tbl s1 @ [obj]\<rparr>
                                else s1))
             else Inr (None, s1)
         | Some obj \<Rightarrow> Inr (Some obj, s1)))"

text \<open>The four assignments to \<open>square_medium\<close>, \<open>medium\<close>, \<open>large\<close> and \<open>original\<close>.\<close>

definition set_urls ::
  "works_image_urls \<Rightarrow> string \<Rightarrow> string \<Rightarrow> string \<Rightarrow> string \<Rightarrow> state
   \<Rightarrow> works_image_urls \<times> state" where
  "set_urls obj sq me la orig s =
     (let o' = obj\<lparr>square_medium := Some sq, medium := Some me, large := Some la,
                 original := Some orig\<rparr>
      in (o', s\<lparr>works_image_urls_tbl := replace_row wi_key o' (works_image_urls_tbl s)\<rparr>))"

text \<open>The loop over \<open>enumerate(works_json_info['meta_pages'])\<close>.\<close>

fun meta_pages_loop ::
  "state \<Rightarrow> int \<Rightarrow> bool \<Rightarrow> int \<Rightarrow> works_image_urls list \<Rightarrow> image_urls_json list
   \<Rightarrow> error + (works_image_urls list \<times> state)" where
  "meta_pages_loop s wid save_to_session pg r [] = Inr (r, s)"
| "meta_pages_loop s wid save_to_session pg r (u # us) =
     raise_bind (WorksImageURLs_get_by_id s wid pg True save_to_session)
       (\<lambda>(obj, s1). case obj of
          None \<Rightarrow> Inl AttributeError
        | Some obj \<Rightarrow>
            (let (o', s2) = set_urls obj (u_square_medium u) (u_medium u) (u_large u) (u_original u) s1
             in meta_pages_loop s2 wid save_to_session (pg + 1) (r @ [o']) us))"

text \<open>
  \<open>session.add_all(r)\<close>: an object of the session stays where it is, another is
  appended.
\<close>

definition add_all_image_urls :: "works_image_urls list \<Rightarrow> state \<Rightarrow> state" where
  "add_all_image_urls r s =
     s\<lparr>works_image_urls_tbl := fold (attach_row wi_key) r (works_image_urls_tbl s)\<rparr>"

text \<open>
  \<open>page_count\<close> is read by subscript and compared with \<open>1\<close>: a missing key raises
  \<open>KeyError\<close> and \<open>None\<close> raises \<open>TypeError\<close>; the option field does not tell the
  two apart and the model raises \<open>TypeError\<close> for both.
\<close>

definition WorksImageURLs_from_works_json ::
  "state \<Rightarrow> works_json \<Rightarrow> bool \<Rightarrow> error + (works_image_urls list \<times> state)" where
  "WorksImageURLs_from_works_json session j save_to_session =
     (case j_page_count j of
        None \<Rightarrow> Inl TypeError
      | Some pc \<Rightarrow>
          raise_bind
            (if pc > 1 \<and> j_meta_pages j \<noteq> [] then
               meta_pages_loop session (j_id j) save_to_session 0 [] (j_meta_pages j)
             else if pc = 1 \<and> j_meta_single_page j \<noteq> None then
               raise_bind (WorksImageURLs_get_by_id session (j_id j) 0 True save_to_session)
                 (\<lambda>(obj, s1). case (obj, j_meta_single_page j) of
                    (Some obj, Some orig) \<Rightarrow>
                      (let urls = j_image_urls j;
                           (o', s2) = set_urls obj (u_square_medium urls) (u_medium urls)
                                        (u_large urls) orig s1
                       in Inr ([o'], s2))
                  | _ \<Rightarrow> Inl AttributeError)
             else Inr ([], session))
            (\<lambda>(r, s). Inr (r, if save_to_session then add_all_image_urls r s else s)))"

subsection \<open>\<open>Ugoira\<close>\<close>

text \<open>The property \<open>delay\<close>: decodes \<open>delay_text\<close> when \<open>_delay\<close> is empty, and keeps it.\<close>

definition Ugoira_delay :: "ugoira \<Rightarrow> error + (int list \<times> ugoira)" where
  "Ugoira_delay self =
     (if memo_delay self = [] then
        (case delay_text self of
           None \<Rightarrow> Inl AttributeError
         | Some text \<Rightarrow>
             raise_bind (map_int (py_split text))
               (\<lambda>d. Inr (d, self\<lparr>memo_delay := d\<rparr>)))
      else Inr (memo_delay self, self))"

definition Ugoira_from_json ::
  "state \<Rightarrow> int \<Rightarrow> ugoira_json \<Rightarrow> bool \<Rightarrow> error + (ugoira \<times> state)" where
  "Ugoira_from_json session wid ugoira_json save_to_session =
     (let d = frames ugoira_json;
          kv = \<lparr>ug_works_id = wid,
                delay_text = Some (py_join '' '' (map py_str d)),
                zip_url = zip_url_medium ugoira_json,
                memo_delay = d\<rparr>;
          s1 = flush session
      in raise_bind (one_or_none (filter (\<lambda>r. ug_works_id r = wid) (ugoiras_tbl s1)))
           (\<lambda>ug. case ug of
              None \<Rightarrow>
                Inr (kv, if save_to_session then s1\<lparr>ugoiras_tbl := ugoiras_tbl s1 @ [kv]\<rparr> else s1)
            | Some ug \<Rightarrow>
                Inr (kv, s1\<lparr>ugoiras_tbl := replace_row ug_works_id kv (ugoiras_tbl s1)\<rparr>)))"


subsection \<open>\<open>Tag\<close>\<close>

definition Tag_get_translation :: "tag \<Rightarrow> string \<Rightarrow> string option" where
  "Tag_get_translation self lang =
     map_option translation_text (find (\<lambda>tt. language tt = lang) (translation self))"

text \<open>\<open>session.query(cls).filter(cls.tag_text == t_name).one_or_none()\<close>\<close>

definition query_tag :: "state \<Rightarrow> string \<Rightarrow> error + (nat option \<times> state)" where
  "query_tag session t_name =
     (let s1 = flush session in
      raise_bind (one_or_none (filter (\<lambda>t. tag_text (tag_objects s1 ! t) = t_name) (tags_tbl s1)))
        (\<lambda>t. Inr (t, s1)))"

text \<open>
  \<open>t = cls(tag_text=t_name); session.add(t); session.flush()\<close>: the flush gives the
  new tag its \<open>tag_id\<close>, one above the largest of the session's tags.
\<close>

definition next_tag_id :: "state \<Rightarrow> nat" where
  "next_tag_id s = Suc (fold max (map (\<lambda>t. tag_id (tag_objects s ! t)) (tags_tbl s)) 0)"

definition new_tag :: "state \<Rightarrow> string \<Rightarrow> nat \<times> state" where
  "new_tag session t_name =
     (let t = length (tag_objects session);
          obj = \<lparr>tag_id = next_tag_id session, tag_text = t_name, translation = []\<rparr>
      in (t, flush (session\<lparr>tag_objects := tag_objects session @ [obj],
                            tags_tbl := tags_tbl session @ [t]\<rparr>)))"

text \<open>
  The loop over \<open>t.translation\<close> (every row of the language takes the new text) and the
  row appended when none was of the language.
\<close>

definition set_translation :: "string \<Rightarrow> string \<Rightarrow> tag \<Rightarrow> tag" where
  "set_translation lang t_translate t =
     (let rows = map (\<lambda>tt. if language tt = lang then tt\<lparr>translation_text := t_translate\<rparr> else tt)
                   (translation t);
          translate_set = (\<exists>tt \<in> set (translation t). language tt = lang)
      in t\<lparr>translation :=
             (if translate_set then rows
              else rows @ [\<lparr>tt_tag_id = tag_id t, language = lang,
                            translation_text = t_translate\<rparr>])\<rparr>)"

text \<open>\<open>if t_translate: ...\<close> on the object \<open>t\<close>.\<close>

definition merge_translation :: "state \<Rightarrow> nat \<Rightarrow> string \<Rightarrow> string option \<Rightarrow> state" where
  "merge_translation s t lang t_translate =
     (case t_translate of
        None \<Rightarrow> s
      | Some text \<Rightarrow>
          if text = [] then s
          else s\<lparr>tag_objects :=
                   (tag_objects s)[t := set_translation lang text (tag_objects s ! t)]\<rparr>)"

text \<open>
  The loop of \<open>from_tags_json\<close>; \<open>seen\<close> is the set \<open>_tags\<close>. The store is queried
  only when the cache has no object for the name (a \<open>Tag\<close> object is truthy).
\<close>

fun from_tags_loop ::
  "state \<Rightarrow> string \<Rightarrow> cache \<Rightarrow> string set \<Rightarrow> nat list \<Rightarrow> tag_json list
   \<Rightarrow> error + (nat list \<times> state \<times> cache)" where
  "from_tags_loop s lang cache seen r [] = Inr (r, s, cache)"
| "from_tags_loop s lang cache seen r (x # xs) =
     (if name x \<in> seen then from_tags_loop s lang cache seen r xs
      else
        raise_bind
          (case map_of cache (name x) of
             Some t \<Rightarrow> Inr (Some t, s)
           | None \<Rightarrow> query_tag s (name x))
          (\<lambda>(found, s1).
             let (t, s2) = (case found of None \<Rightarrow> new_tag s1 (name x) | Some t \<Rightarrow> (t, s1));
                 s3 = merge_translation s2 t lang (translated_name x)
             in from_tags_loop s3 lang (AList.update (name x) t cache) (insert (name x) seen)
                  (r @ [t]) xs))"

definition Tag_from_tags_json ::
  "state \<Rightarrow> tag_json list \<Rightarrow> string \<Rightarrow> cache \<Rightarrow> error + (nat list \<times> state \<times> cache)" where
  "Tag_from_tags_json session tgs lang cache = from_tags_loop session lang cache {} [] tgs"

subsection \<open>\<open>Works\<close>\<close>

text \<open>The dictionary \<open>kv\<close>: ten keys always, four only when their value is truthy.\<close>

record works_kv =
  kv_works_id :: int
  kv_author_id :: int
  kv_works_type :: "string option"
  kv_title :: "string option"
  kv_page_count :: "int option"
  kv_total_views :: "int option"
  kv_total_bookmarks :: "int option"
  kv_is_bookmarked :: "bool option"
  kv_bookmark_rate :: "rat option"
  kv_create_date :: "int option"
  kv_caption :: "works_caption option"
  kv_tags :: "nat list option"
  kv_image_urls :: "works_image_urls list option"
  kv_ugoira :: "ugoira option"

text \<open>\<open>cls(**kv)\<close>: the columns no key names stay \<open>None\<close>, the tag list empty.\<close>

definition Works_init :: "works_kv \<Rightarrow> works" where
  "Works_init kv =
     \<lparr>works_id = kv_works_id kv, author_id = kv_author_id kv, works_type = kv_works_type kv,
      title = kv_title kv, page_count = kv_page_count kv, total_views = kv_total_views kv,
      total_bookmarks = kv_total_bookmarks kv, is_bookmarked = kv_is_bookmarked kv,
      is_downloaded = None, bookmark_rate = kv_bookmark_rate kv,
      create_date = kv_create_date kv, insert_date = None,
      tags = (case kv_tags kv of None \<Rightarrow> [] | Some ts \<Rightarrow> ts)\<rparr>"

text \<open>\<open>dict_setattr(w, kv)\<close> on the columns and the tag list of a \<open>Works\<close>.\<close>

definition dict_setattr :: "works \<Rightarrow> works_kv \<Rightarrow> works" where
  "dict_setattr w kv =
     w\<lparr>works_id := kv_works_id kv, author_id := kv_author_id kv, works_type := kv_works_type kv,
       title := kv_title kv, page_count := kv_page_count kv, total_views := kv_total_views kv,
       total_bookmarks := kv_total_bookmarks kv, is_bookmarked := kv_is_bookmarked kv,
       bookmark_rate := kv_bookmark_rate kv, create_date := kv_create_date kv,
       tags := (case kv_tags kv of None \<Rightarrow> tags w | Some ts \<Rightarrow> ts)\<rparr>"

text \<open>
  The relationships \<open>caption\<close>, \<open>image_urls\<close> and \<open>ugoira\<close> of a work are the rows of
  their tables with its \<open>works_id\<close>. Setting them on a work of the session, or adding
  the work, brings the objects into the session. \<open>image_urls\<close> is declared with
  \<open>delete-orphan\<close>: when the list of a work of the session is replaced (\<open>replaced\<close>),
  the rows of the work that the new list does not hold are deleted.
\<close>

definition set_relationships :: "works_kv \<Rightarrow> bool \<Rightarrow> state \<Rightarrow> state" where
  "set_relationships kv replaced s =
     (let s1 = (case kv_caption kv of
                  None \<Rightarrow> s
                | Some c \<Rightarrow> s\<lparr>works_captions_tbl := attach_row wc_works_id c (works_captions_tbl s)\<rparr>);
          s2 = (case kv_image_urls kv of
                  None \<Rightarrow> s1
                | Some r \<Rightarrow>
                    s1\<lparr>works_image_urls_tbl :=
                         fold (attach_row wi_key) r
                           (if replaced then
                              filter (\<lambda>row. wi_works_id row \<noteq> kv_works_id kv
                                              \<or> wi_key row \<in> set (map wi_key r))
                                (works_image_urls_tbl s1)
                            else works_image_urls_tbl s1)\<rparr>)
      in case kv_ugoira kv of
           None \<Rightarrow> s2
         | Some ug \<Rightarrow> s2\<lparr>ugoiras_tbl := attach_row ug_works_id ug (ugoiras_tbl s2)\<rparr>)"

text \<open>
  The steps of \<open>Works.from_json\<close>, in the order of the source. Lines 133 to 135:
  the caption object of the work, with the new text.
\<close>

definition from_json_caption :: "state \<Rightarrow> works_json \<Rightarrow> error + (works_caption option \<times> state)" where
  "from_json_caption session j =
     (if truthy_str (j_caption j) then
        raise_bind (WorksCaption_get_by_id session (j_id j) False)
          (\<lambda>(c, s). let c' = c\<lparr>caption_text := j_caption j\<rparr>
                     in Inr (Some c',
                             s\<lparr>works_captions_tbl :=
                                  replace_row wc_works_id c' (works_captions_tbl s)\<rparr>))
      else Inr (None, session))"

text \<open>Lines 136 and 137: the bookmark rate, under the guard on the two counts.\<close>

definition from_json_bookmark_rate :: "works_json \<Rightarrow> error + rat option" where
  "from_json_bookmark_rate j =
     (if truthy_int (j_total_bookmarks j) \<and> truthy_int (j_total_view j) then
        (case (j_total_bookmarks j, j_total_view j) of
           (Some b, Some v) \<Rightarrow> raise_bind (py_truediv b v) (\<lambda>q. Inr (Some (py_round q 5)))
         | _ \<Rightarrow> Inl TypeError)
      else Inr None)"

text \<open>Lines 138 to 140: the tags, resolved only when the list is not empty.\<close>

definition from_json_tags ::
  "state \<Rightarrow> works_json \<Rightarrow> string \<Rightarrow> cache \<Rightarrow> error + (nat list \<times> state \<times> cache)" where
  "from_json_tags session j lang tags_cache =
     (if j_tags j \<noteq> [] then Tag_from_tags_json session (j_tags j) lang tags_cache
      else Inr ([], session, tags_cache))"

text \<open>
  Lines 141 and 142. \<open>iso_to_datetime\<close> comes from \<open>helpers.py\<close> and is a
  parameter; a date is the integer timestamp the column stores.
\<close>

definition from_json_create_date ::
  "(string \<Rightarrow> error + int) \<Rightarrow> works_json \<Rightarrow> error + int option" where
  "from_json_create_date iso_to_datetime j =
     (case j_create_date j of
        None \<Rightarrow> Inr None
      | Some d \<Rightarrow> if d = [] then Inr None
                  else raise_bind (iso_to_datetime d) (\<lambda>t. Inr (Some t)))"

text \<open>Lines 163 and 164: the \<open>Ugoira\<close> of the work when \<open>ugoira_json\<close> is given.\<close>

definition from_json_ugoira ::
  "state \<Rightarrow> works_json \<Rightarrow> ugoira_json option \<Rightarrow> error + (ugoira option \<times> state)" where
  "from_json_ugoira session j ugoira_json =
     (case ugoira_json of
        None \<Rightarrow> Inr (None, session)
      | Some uj \<Rightarrow> raise_bind (Ugoira_from_json session (j_id j) uj False)
                     (\<lambda>(ug, s). Inr (Some ug, s)))"

text \<open>Lines 145 to 164: \<open>kv\<close>, with the four optional keys under their guards.\<close>

definition from_json_kv ::
  "works_json \<Rightarrow> works_caption option \<Rightarrow> rat option \<Rightarrow> nat list \<Rightarrow> int option
   \<Rightarrow> works_image_urls list \<Rightarrow> ugoira option \<Rightarrow> works_kv" where
  "from_json_kv j x_caption x_bookmark_rate x_tags x_create_date x_image_urls x_ugoira =
     \<lparr>kv_works_id = j_id j, kv_author_id = j_user_id j, kv_works_type = j_type j,
      kv_title = j_title j, kv_page_count = j_page_count j,
      kv_total_views = j_total_view j, kv_total_bookmarks = j_total_bookmarks j,
      kv_is_bookmarked = j_is_bookmarked j, kv_bookmark_rate = x_bookmark_rate,
      kv_create_date = x_create_date,
      kv_caption = x_caption,
      kv_tags = (if x_tags \<noteq> [] then Some x_tags else None),
      kv_image_urls = (if x_image_urls \<noteq> [] then Some x_image_urls else None),
      kv_ugoira = x_ugoira\<rparr>"

text \<open>Lines 165 to 172: the work is looked up by \<open>works_id\<close>, then made or updated.\<close>

definition from_json_upsert :: "state \<Rightarrow> works_kv \<Rightarrow> error + (works \<times> state)" where
  "from_json_upsert session kv =
     (let s = flush session
      in raise_bind (one_or_none (filter (\<lambda>w. works_id w = kv_works_id kv) (works_tbl s)))
           (\<lambda>w. case w of
              None \<Rightarrow>
                (let w = Works_init kv
                 in Inr (w, set_relationships kv False (s\<lparr>works_tbl := works_tbl s @ [w]\<rparr>)))
            | Some w \<Rightarrow>
                (let w' = dict_setattr w kv
                 in Inr (w', set_relationships kv True
                               (s\<lparr>works_tbl := replace_row works_id w' (works_tbl s)\<rparr>)))))"

text \<open>
  \<open>tags_cache\<close> is the dictionary the call works on, and the result carries it as the
  call leaves it.
\<close>

definition Works_from_json ::
  "(string \<Rightarrow> error + int) \<Rightarrow> state \<Rightarrow> works_json \<Rightarrow> string \<Rightarrow> ugoira_json option \<Rightarrow> cache
   \<Rightarrow> error + (works \<times> state \<times> cache)" where
  "Works_from_json iso_to_datetime session j lang ugoira_json tags_cache =
     raise_bind (from_json_caption session j)
     (\<lambda>(x_caption, s1).
     raise_bind (from_json_bookmark_rate j)
     (\<lambda>x_bookmark_rate.
     raise_bind (from_json_tags s1 j lang tags_cache)
     (\<lambda>(x_tags, s2, cache2).
     raise_bind (from_json_create_date iso_to_datetime j)
     (\<lambda>x_create_date.
     raise_bind (WorksImageURLs_from_works_json s2 j False)
     (\<lambda>(x_image_urls, s3).
     raise_bind (from_json_ugoira s3 j ugoira_json)
     (\<lambda>(x_ugoira, s4).
     raise_bind
       (from_json_upsert s4
          (from_json_kv j x_caption x_bookmark_rate x_tags x_create_date x_image_urls x_ugoira))
     (\<lambda>(w, s5). Inr (w, s5, cache2))))))))"

text \<open>
  A call that passes no \<open>tags_cache\<close> works on the dictionary the \<open>def\<close> statement
  made once (\<open>tags_cache={}\<close>): \<open>defaults\<close> is that dictionary before the call, and
  the result holds it after the call.
\<close>

definition Works_from_json_no_cache ::
  "(string \<Rightarrow> error + int) \<Rightarrow> cache \<Rightarrow> state \<Rightarrow> works_json \<Rightarrow> string \<Rightarrow> ugoira_json option
   \<Rightarrow> error + (works \<times> state \<times> cache)" where
  "Works_from_json_no_cache iso_to_datetime defaults session j lang ugoira_json =
     Works_from_json iso_to_datetime session j lang ugoira_json defaults"


subsection \<open>\<open>UserDetail\<close> and \<open>User\<close>\<close>

text \<open>\<open>kv\<close> names every column of \<open>UserDetail\<close>: the row after \<open>dict_setattr\<close> is \<open>kv\<close>.\<close>

definition UserDetail_from_user_json ::
  "state \<Rightarrow> user_json \<Rightarrow> bool \<Rightarrow> error + (user_detail \<times> state)" where
  "UserDetail_from_user_json session json_info save_to_session =
     (let kv = \<lparr>ud_user_id = uj_id json_info,
                total_illusts = p_total_illusts json_info,
                total_manga = p_total_manga json_info,
                total_novels = p_total_novels json_info,
                total_illust_bookmarks_public = p_total_illust_bookmarks_public json_info,
                total_follow_users = p_total_follow_users json_info,
                avatar_url = uj_profile_image_medium json_info,
                background_url = p_background_image_url json_info,
                comment = uj_comment json_info\<rparr>;
          s1 = flush session
      in raise_bind (one_or_none (filter (\<lambda>r. ud_user_id r = ud_user_id kv) (users_details_tbl s1)))
           (\<lambda>u. case u of
              None \<Rightarrow>
                Inr (kv, if save_to_session
                         then s1\<lparr>users_details_tbl := users_details_tbl s1 @ [kv]\<rparr> else s1)
            | Some u \<Rightarrow>
                Inr (kv, s1\<lparr>users_details_tbl :=
                               replace_row ud_user_id kv (users_details_tbl s1)\<rparr>)))"

definition User_from_json :: "state \<Rightarrow> user_json \<Rightarrow> error + (user \<times> state)" where
  "User_from_json session json_info =
     raise_bind (UserDetail_from_user_json session json_info False)
       (\<lambda>(detial, s1).
          let s2 = flush s1
          in raise_bind (one_or_none (filter (\<lambda>r. user_id r = uj_id json_info) (users_tbl s2)))
               (\<lambda>u. case u of
                  None \<Rightarrow>
                    (let u = \<lparr>u_local_id = None, user_id = uj_id json_info,
                              u_name = uj_name json_info, account = uj_account json_info,
                              is_followed = uj_is_followed json_info, u_insert_date = None\<rparr>
                     in Inr (u, s2\<lparr>users_tbl := users_tbl s2 @ [u],
                                   users_details_tbl :=
                                     attach_row ud_user_id detial (users_details_tbl s2)\<rparr>))
                | Some u \<Rightarrow>
                    (let u' = u\<lparr>user_id := uj_id json_info, u_name := uj_name json_info,
                                account := uj_account json_info,
                                is_followed := uj_is_followed json_info\<rparr>
                     in Inr (u', s2\<lparr>users_tbl := replace_row user_id u' (users_tbl s2),
                                    users_details_tbl :=
                                      attach_row ud_user_id detial (users_details_tbl s2)\<rparr>))))"

subsection \<open>\<open>DatabaseHelper.get_session\<close>\<close>

text \<open>
  A session over a store of any type \<open>'db\<close>, as SQLAlchemy runs it on SQLite.
  \<open>database\<close> is the persisted store, \<open>transaction\<close> the store as the connection of
  the session sees it, \<open>in_transaction\<close> says that the connection has a transaction
  open (the driver \<open>sqlite3\<close> opens one before the first \<open>insert\<close>, \<open>update\<close> or
  \<open>delete\<close>, and before no other statement), \<open>pending\<close> holds the changes of the unit
  of work that no flush has sent yet. \<open>flush_patched\<close> and \<open>commit_patched\<close> say that
  \<open>get_session\<close> has replaced the attribute of this session object by \<open>no_write\<close>.
\<close>

record 'db db_session =
  database :: 'db
  transaction :: 'db
  in_transaction :: bool
  pending :: "('db \<Rightarrow> 'db) list"
  autoflush :: bool
  flush_patched :: bool
  commit_patched :: bool

definition sessionmaker :: "'db \<Rightarrow> 'db db_session" where
  "sessionmaker db =
     \<lparr>database = db, transaction = db, in_transaction = False, pending = [], autoflush = True,
      flush_patched = False, commit_patched = False\<rparr>"

text \<open>
  \<open>Session.flush\<close>, the method of the class, sends the pending changes; \<open>session_flush\<close>
  is \<open>s.flush\<close>, the attribute that a caller and the session itself look up on the
  object.
\<close>

definition Session_flush :: "'db db_session \<Rightarrow> 'db db_session" where
  "Session_flush s =
     (if pending s = [] then s
      else s\<lparr>transaction := fold (\<lambda>f d. f d) (pending s) (transaction s),
             in_transaction := True, pending := []\<rparr>)"

definition session_flush :: "'db db_session \<Rightarrow> 'db db_session" where
  "session_flush s = (if flush_patched s then s else Session_flush s)"

text \<open>
  \<open>SessionTransaction.commit\<close>, which \<open>Session.commit\<close> calls and which is within reach
  of a block as \<open>session.transaction.commit()\<close>: as long as the unit of work is not
  clean it calls \<open>session.flush()\<close>, it raises \<open>FlushError\<close> when flushing does not get
  it clean (a patched \<open>flush\<close> never does), and then it commits the connection.
  \<open>session_commit\<close> is \<open>s.commit\<close>, the attribute.
\<close>

definition SessionTransaction_commit :: "'db db_session \<Rightarrow> error + 'db db_session" where
  "SessionTransaction_commit s =
     (let s1 = (if pending s = [] then s else session_flush s)
      in if pending s1 \<noteq> [] then Inl FlushError
         else Inr (s1\<lparr>database := transaction s1, in_transaction := False\<rparr>))"

definition session_commit :: "'db db_session \<Rightarrow> error + 'db db_session" where
  "session_commit s = (if commit_patched s then Inr s else SessionTransaction_commit s)"

definition session_rollback :: "'db db_session \<Rightarrow> 'db db_session" where
  "session_rollback s = s\<lparr>transaction := database s, in_transaction := False, pending := []\<rparr>"

definition session_close :: "'db db_session \<Rightarrow> 'db db_session" where
  "session_close s = s\<lparr>transaction := database s, in_transaction := False, pending := []\<rparr>"

text \<open>
  What a block can do through the session: record a change in the unit of work
  (\<open>add\<close>, an attribute written on an object of the session), send an \<open>insert\<close>,
  \<open>update\<close> or \<open>delete\<close> (\<open>execute\<close>, a bulk \<open>update\<close>), send a statement of data
  definition such as \<open>create table\<close> (\<open>execute\<close> again; with no transaction open the
  database runs it at once and for good, in an open transaction it is part of the
  transaction), \<open>flush\<close>, \<open>commit\<close>, commit on the transaction object, \<open>rollback\<close>, and
  query, which flushes first when \<open>autoflush\<close> is on. Only a commit can raise.
\<close>

datatype 'db session_op =
    Add "'db \<Rightarrow> 'db" | Execute "'db \<Rightarrow> 'db" | Execute_ddl "'db \<Rightarrow> 'db"
  | Flush | Commit | Transaction_commit | Rollback | Query

fun run_op :: "'db session_op \<Rightarrow> 'db db_session \<Rightarrow> error + 'db db_session" where
  "run_op (Add f) s = Inr (s\<lparr>pending := pending s @ [f]\<rparr>)"
| "run_op (Execute f) s = Inr (s\<lparr>transaction := f (transaction s), in_transaction := True\<rparr>)"
| "run_op (Execute_ddl f) s =
     Inr (if in_transaction s then s\<lparr>transaction := f (transaction s)\<rparr>
          else s\<lparr>database := f (database s), transaction := f (database s)\<rparr>)"
| "run_op Flush s = Inr (session_flush s)"
| "run_op Commit s = session_commit s"
| "run_op Transaction_commit s = SessionTransaction_commit s"
| "run_op Rollback s = Inr (session_rollback s)"
| "run_op Query s = Inr (if autoflush s then session_flush s else s)"

text \<open>
  The operations of a block in turn, up to the first that raises: the result is the
  session where the block ends and the exception, if any.
\<close>

fun run_body ::
  "'db session_op list \<Rightarrow> 'db db_session \<Rightarrow> 'db db_session \<times> error option" where
  "run_body [] s = (s, None)"
| "run_body (x # xs) s =
     (case run_op x s of Inl e \<Rightarrow> (s, Some e) | Inr s' \<Rightarrow> run_body xs s')"

text \<open>
  \<open>with get_session(readonly) as session: body\<close>. \<open>readonly\<close> is \<open>None\<close> when the
  caller leaves it out (the default is \<open>True\<close>); \<open>exc\<close> is the exception that the code
  of the block raises after its operations on the session, if it raises one. An
  exception, of the session or of the block, rolls back before the session is closed
  and goes on to the caller. \<open>open_session\<close> is the session the block receives, the
  result of \<open>get_session\<close> the session after \<open>close\<close> and the exception.
\<close>

definition open_session :: "'db \<Rightarrow> bool option \<Rightarrow> 'db db_session" where
  "open_session db readonly =
     (let s = sessionmaker db
      in if (case readonly of None \<Rightarrow> True | Some b \<Rightarrow> b)
         then s\<lparr>autoflush := False, flush_patched := True, commit_patched := True\<rparr>
         else s)"

definition get_session ::
  "'db \<Rightarrow> bool option \<Rightarrow> 'db session_op list \<Rightarrow> error option
     \<Rightarrow> 'db db_session \<times> error option" where
  "get_session db readonly body exc =
     (let (s, e) = run_body body (open_session db readonly);
          e = (case e of None \<Rightarrow> exc | Some x \<Rightarrow> Some x)
      in (session_close (if e = None then s else session_rollback s), e))"



section \<open>Example states\<close>

text \<open>A new session on an empty database, in a process that has made no \<open>Tag\<close> yet.\<close>

definition empty_session :: state where
  "empty_session =
     \<lparr>tag_objects = [], works_tbl = [], works_local_tbl = [], users_tbl = [],
      users_details_tbl = [], ugoiras_tbl = [], works_image_urls_tbl = [],
      works_captions_tbl = [], tags_tbl = []\<rparr>"


text \<open>
  A stand-in for \<open>iso_to_datetime\<close> in the examples, and a work as the client
  returns it: one page, no caption, no tags, no image block, 100 views, no bookmark.
  \<open>example_row\<close> is the row \<open>Works.from_json\<close> makes of it.
\<close>

definition example_iso_to_datetime :: "string \<Rightarrow> error + int" where
  "example_iso_to_datetime d = Inr 0"

definition example_work :: works_json where
  "example_work =
     \<lparr>j_id = 1, j_user_id = 9, j_type = Some ''illust'', j_title = Some ''t'',
      j_page_count = Some 1, j_total_view = Some 100, j_total_bookmarks = Some 0,
      j_is_bookmarked = Some False, j_caption = None, j_tags = [], j_create_date = None,
      j_meta_pages = [], j_meta_single_page = None,
      j_image_urls = \<lparr>u_square_medium = [], u_medium = [], u_large = [], u_original = []\<rparr>\<rparr>"

definition example_row :: works where
  "example_row =
     \<lparr>works_id = 1, author_id = 9, works_type = Some ''illust'', title = Some ''t'',
      page_count = Some 1, total_views = Some 100, total_bookmarks = Some 0,
      is_bookmarked = Some False, is_downloaded = None, bookmark_rate = None,
      create_date = None, insert_date = None, tags = []\<rparr>"

text \<open>
  Well-formed references. The cache maps a tag text to a \<open>Tag\<close> object of the process
  with that text (what \<open>from_tags_json\<close> stores), the session lists \<open>Tag\<close> objects
  of the process, and a \<open>Tag\<close> has at most one translation per language (the primary
  key of \<open>tags_translation\<close>).
\<close>

definition cache_ok :: "state \<Rightarrow> cache \<Rightarrow> bool" where
  "cache_ok s c \<longleftrightarrow>
     (\<forall>(n, t) \<in> set c. t < length (tag_objects s) \<and> tag_text (tag_objects s ! t) = n)"

definition tags_ok :: "state \<Rightarrow> bool" where
  "tags_ok s \<longleftrightarrow> (\<forall>t \<in> set (tags_tbl s). t < length (tag_objects s))"

definition translations_ok :: "state \<Rightarrow> bool" where
  "translations_ok s \<longleftrightarrow>
     (\<forall>t \<in> set (tag_objects s). distinct (map language (translation t)))"




section \<open>Frame delays: text and back\<close>

lemma of_char_digit_char: "d < 10 \<Longrightarrow> (of_char (digit_char d) :: nat) = 48 + d"
  by (simp add: digit_char_def)

lemma is_digit_digit_char: "d < 10 \<Longrightarrow> is_digit (digit_char d)"
  by (simp add: is_digit_def of_char_digit_char)

lemma digit_val_digit_char: "d < 10 \<Longrightarrow> digit_val (digit_char d) = d"
  by (simp add: digit_val_def of_char_digit_char)

lemma not_isspace_digit: "is_digit c \<Longrightarrow> \<not> isspace c"
  by (auto simp: is_digit_def isspace_def)

lemma digits_all_digit: "\<forall>c \<in> set (digits n). is_digit c"
proof (induction n rule: digits.induct)
  case (1 n)
  show ?case
  proof (cases "n < 10")
    case True
    then show ?thesis by (subst digits.simps) (simp add: is_digit_digit_char)
  next
    case False
    with 1 show ?thesis by (subst digits.simps) (simp add: is_digit_digit_char)
  qed
qed

lemma digits_nonempty: "digits n \<noteq> []"
  by (subst digits.simps) simp

lemma int_digits_all_digit:
  "\<forall>c \<in> set s. is_digit c \<Longrightarrow> int_digits acc s = Some (foldl (\<lambda>a c. a * 10 + digit_val c) acc s)"
  by (induction s arbitrary: acc) simp_all

lemma foldl_digits: "foldl (\<lambda>a c. a * 10 + digit_val c) 0 (digits n) = n"
proof (induction n rule: digits.induct)
  case (1 n)
  show ?case
  proof (cases "n < 10")
    case True
    then show ?thesis by (subst digits.simps) (simp add: digit_val_digit_char)
  next
    case False
    with 1 show ?thesis by (subst digits.simps) (simp add: digit_val_digit_char)
  qed
qed

lemma int_unsigned_digits: "int_unsigned (digits n) = Some n"
proof -
  obtain c cs where e: "digits n = c # cs"
    using digits_nonempty [of n] by (cases "digits n") auto
  have d: "\<forall>x \<in> set (c # cs). is_digit x"
    using digits_all_digit [of n] e by simp
  have "foldl (\<lambda>a c. a * 10 + digit_val c) 0 (c # cs) = n"
    using foldl_digits [of n] e by simp
  then show ?thesis
    using d e by (simp add: int_unsigned_def int_digits_all_digit)
qed

lemma not_isspace_minus: "\<not> isspace CHR ''-''"
  by (simp add: isspace_def)

lemma not_is_digit_sign: "\<not> is_digit CHR ''-''" "\<not> is_digit CHR ''+''"
  by (simp_all add: is_digit_def)

lemma py_str_no_space: "\<forall>c \<in> set (py_str i). \<not> isspace c"
  using digits_all_digit not_isspace_digit
  by (auto simp: py_str_def not_isspace_minus)

lemma py_str_nonempty: "py_str i \<noteq> []"
  by (simp add: py_str_def digits_nonempty)

lemma dropWhile_none: "\<forall>c \<in> set s. \<not> P c \<Longrightarrow> dropWhile P s = s"
  by (cases s) simp_all

lemma py_strip_no_space: "\<forall>c \<in> set s. \<not> isspace c \<Longrightarrow> py_strip s = s"
  by (simp add: py_strip_def dropWhile_none)

lemma py_int_py_str: "py_int (py_str i) = Inr i"
proof (cases "i < 0")
  case True
  have "py_strip (py_str i) = CHR ''-'' # digits (nat (- i))"
    using py_strip_no_space [OF py_str_no_space, of i] True by (simp add: py_str_def)
  then show ?thesis
    using True by (simp add: py_int_def int_unsigned_digits)
next
  case False
  obtain c cs where e: "digits (nat i) = c # cs"
    using digits_nonempty [of "nat i"] by (cases "digits (nat i)") auto
  have "is_digit c"
    using digits_all_digit [of "nat i"] e by simp
  then have c: "c \<noteq> CHR ''-''" "c \<noteq> CHR ''+''"
    using not_is_digit_sign by auto
  have "py_strip (py_str i) = c # cs"
    using py_strip_no_space [OF py_str_no_space, of i] False e by (simp add: py_str_def)
  moreover have "int_unsigned (c # cs) = Some (nat i)"
    using int_unsigned_digits [of "nat i"] e by simp
  ultimately show ?thesis
    using False c by (simp add: py_int_def)
qed

lemma map_int_py_str: "map_int (map py_str ds) = Inr ds"
  by (induction ds) (simp_all add: py_int_py_str raise_bind_def)

lemma split_run_word:
  "\<forall>c \<in> set w. \<not> isspace c \<Longrightarrow> split_run cur (w @ rest) = split_run (cur @ w) rest"
  by (induction w arbitrary: cur) simp_all

lemma isspace_space: "isspace CHR '' ''"
  by (simp add: isspace_def)

lemma split_join:
  "\<forall>w \<in> set ws. w \<noteq> [] \<and> (\<forall>c \<in> set w. \<not> isspace c) \<Longrightarrow> py_split (py_join '' '' ws) = ws"
proof (induction ws)
  case Nil
  then show ?case by (simp add: py_split_def)
next
  case (Cons w ws)
  then have w: "w \<noteq> []" "\<forall>c \<in> set w. \<not> isspace c"
    by simp_all
  show ?case
  proof (cases ws)
    case Nil
    have "split_run [] (w @ []) = split_run ([] @ w) []"
      using w by (intro split_run_word) simp
    with Nil w show ?thesis by (simp add: py_split_def)
  next
    case (Cons v vs)
    have "split_run [] (w @ '' '' @ py_join '' '' (v # vs))
        = split_run ([] @ w) ('' '' @ py_join '' '' (v # vs))"
      using w by (intro split_run_word) simp
    moreover have "split_run [] (py_join '' '' (v # vs)) = v # vs"
      using Cons.IH Cons.prems Cons by (simp add: py_split_def)
    ultimately show ?thesis
      using Cons w by (simp add: py_split_def isspace_space)
  qed
qed

lemma decode_encode: "map_int (py_split (py_join '' '' (map py_str ds))) = Inr ds"
proof -
  have "py_split (py_join '' '' (map py_str ds)) = map py_str ds"
    by (rule split_join) (auto simp: py_str_nonempty py_str_no_space)
  then show ?thesis by (simp add: map_int_py_str)
qed

text \<open>
  C7. For every list of integer frame delays, the empty one included: the \<open>Ugoira\<close>
  that \<open>Ugoira.from_json\<close> makes from it gives the list back through the property
  \<open>delay\<close>, both from the list kept beside the text and, once that list is gone (the
  object as a later session loads it, \<open>_delay\<close> empty), by decoding the space-joined
  \<open>delay_text\<close>.
\<close>

theorem delay_round_trip:
  assumes "Ugoira_from_json session wid ugoira_json save_to_session = Inr (ug, s')"
  shows "Ugoira_delay ug = Inr (frames ugoira_json, ug)
       \<and> Ugoira_delay (ug\<lparr>memo_delay := []\<rparr>) = Inr (frames ugoira_json, ug)"
proof -
  let ?d = "frames ugoira_json"
  have ug: "ug = \<lparr>ug_works_id = wid, delay_text = Some (py_join '' '' (map py_str ?d)),
                  zip_url = zip_url_medium ugoira_json, memo_delay = ?d\<rparr>"
    using assms
    by (auto simp: Ugoira_from_json_def Let_def raise_bind_def
             split: sum.splits option.splits)
  have "Ugoira_delay (ug\<lparr>memo_delay := []\<rparr>) = Inr (?d, ug)"
    using decode_encode [of ?d] by (simp add: ug Ugoira_delay_def raise_bind_def)
  moreover have "Ugoira_delay ug = Inr (?d, ug)"
    using decode_encode [of ?d] by (cases "?d = []") (simp_all add: ug Ugoira_delay_def raise_bind_def)
  ultimately show ?thesis by simp
qed

theorem delay_round_trip_witness:
  "Ugoira_from_json empty_session 7 \<lparr>frames = [60, - 5, 100], zip_url_medium = None\<rparr> False
     = Inr (\<lparr>ug_works_id = 7, delay_text = Some ''60 -5 100'', zip_url = None,
             memo_delay = [60, - 5, 100]\<rparr>, empty_session)
   \<and> Ugoira_delay \<lparr>ug_works_id = 7, delay_text = Some ''60 -5 100'', zip_url = None,
                    memo_delay = []\<rparr>
     = Inr ([60, - 5, 100], \<lparr>ug_works_id = 7, delay_text = Some ''60 -5 100'', zip_url = None,
                              memo_delay = [60, - 5, 100]\<rparr>)"
proof -
  have h: "Ugoira_from_json empty_session 7 \<lparr>frames = [60, - 5, 100], zip_url_medium = None\<rparr> False
     = Inr (\<lparr>ug_works_id = 7, delay_text = Some ''60 -5 100'', zip_url = None,
             memo_delay = [60, - 5, 100]\<rparr>, empty_session)"
    by code_simp
  show ?thesis
    using h delay_round_trip [OF h] by simp
qed


section \<open>Flushing and querying\<close>

lemma flush_other_tables [simp]:
  "tag_objects (flush s) = tag_objects s"
  "works_tbl (flush s) = works_tbl s"
  "users_details_tbl (flush s) = users_details_tbl s"
  "ugoiras_tbl (flush s) = ugoiras_tbl s"
  "works_image_urls_tbl (flush s) = works_image_urls_tbl s"
  "works_captions_tbl (flush s) = works_captions_tbl s"
  "tags_tbl (flush s) = tags_tbl s"
  by (simp_all add: flush_def)

lemma assign_ids_none_pending:
  "\<forall>r \<in> set rs. get r \<noteq> None \<Longrightarrow> assign_ids get put n rs = rs"
  by (induction rs arbitrary: n) auto

lemma assign_ids_all_assigned:
  "(\<And>k r. get (put k r) \<noteq> None) \<Longrightarrow> \<forall>r \<in> set (assign_ids get put n rs). get r \<noteq> None"
  by (induction rs arbitrary: n) (auto split: option.splits)

lemma assign_ids_map_key:
  "(\<And>k r. key (put k r) = key r) \<Longrightarrow> map key (assign_ids get put n rs) = map key rs"
  by (induction rs arbitrary: n) (auto split: option.splits)

lemma assign_ids_keeps_assigned:
  "r \<in> set rs \<Longrightarrow> get r \<noteq> None \<Longrightarrow> r \<in> set (assign_ids get put n rs)"
  by (induction rs arbitrary: n) (auto split: option.splits)

lemma assign_ids_filter:
  "(\<And>k r. P (put k r) = P r) \<Longrightarrow>
   length (filter P (assign_ids get put n rs)) = length (filter P rs)"
  by (induction rs arbitrary: n) (auto split: option.splits)

lemma flush_none_pending:
  "\<forall>r \<in> set (works_local_tbl (flush s)). local_id r \<noteq> None"
  "\<forall>r \<in> set (users_tbl (flush s)). u_local_id r \<noteq> None"
proof -
  show "\<forall>r \<in> set (works_local_tbl (flush s)). local_id r \<noteq> None"
    using assign_ids_all_assigned [of local_id "\<lambda>n r. r\<lparr>local_id := Some n\<rparr>"]
    by (simp add: flush_def)
  show "\<forall>r \<in> set (users_tbl (flush s)). u_local_id r \<noteq> None"
    using assign_ids_all_assigned [of u_local_id "\<lambda>n r. r\<lparr>u_local_id := Some n\<rparr>"]
    by (simp add: flush_def)
qed

lemma flush_flush [simp]: "flush (flush s) = flush s"
proof -
  have "assign_ids local_id (\<lambda>n r. r\<lparr>local_id := Some n\<rparr>) m (works_local_tbl (flush s))
      = works_local_tbl (flush s)" for m
    by (rule assign_ids_none_pending) (rule flush_none_pending)
  moreover have "assign_ids u_local_id (\<lambda>n r. r\<lparr>u_local_id := Some n\<rparr>) m (users_tbl (flush s))
      = users_tbl (flush s)" for m
    by (rule assign_ids_none_pending) (rule flush_none_pending)
  ultimately show ?thesis
    by (simp add: flush_def [of "flush s"])
qed

lemma flush_works_local_keys [simp]:
  "map wl_works_id (works_local_tbl (flush s)) = map wl_works_id (works_local_tbl s)"
  by (simp add: flush_def assign_ids_map_key)

lemma flush_users_keys [simp]:
  "map user_id (users_tbl (flush s)) = map user_id (users_tbl s)"
  by (simp add: flush_def assign_ids_map_key)

lemma flush_keeps_assigned:
  "r \<in> set (works_local_tbl s) \<Longrightarrow> local_id r \<noteq> None \<Longrightarrow> r \<in> set (works_local_tbl (flush s))"
  by (simp add: flush_def assign_ids_keeps_assigned)

lemma filter_key_absent:
  "k \<notin> set (map key rows) \<Longrightarrow> filter (\<lambda>r. key r = k) rows = []"
  by (auto simp: filter_empty_conv)

lemma one_or_none_distinct:
  "distinct (map key rows) \<Longrightarrow>
   one_or_none (filter (\<lambda>r. key r = k) rows)
     = Inr (if k \<in> set (map key rows) then Some (the (find (\<lambda>r. key r = k) rows)) else None)"
proof (induction rows)
  case Nil
  then show ?case by (simp add: one_or_none_def)
next
  case (Cons r rows)
  show ?case
  proof (cases "key r = k")
    case True
    with Cons.prems have "k \<notin> set (map key rows)"
      by auto
    then have "filter (\<lambda>r. key r = k) rows = []"
      by (rule filter_key_absent)
    with True show ?thesis by (simp add: one_or_none_def)
  next
    case False
    with Cons show ?thesis by simp
  qed
qed

lemma find_in_set: "k \<in> set (map key rows) \<Longrightarrow>
  the (find (\<lambda>r. key r = k) rows) \<in> set rows \<and> key (the (find (\<lambda>r. key r = k) rows)) = k"
  by (induction rows) auto

lemma filter_key_distinct:
  "distinct (map key rows) \<Longrightarrow> k \<in> set (map key rows) \<Longrightarrow>
   length (filter (\<lambda>r. key r = k) rows) = 1"
proof (induction rows)
  case Nil
  then show ?case by simp
next
  case (Cons r rows)
  show ?case
  proof (cases "key r = k")
    case True
    with Cons.prems have "k \<notin> set (map key rows)"
      by auto
    then have "filter (\<lambda>r. key r = k) rows = []"
      by (rule filter_key_absent)
    with True show ?thesis by simp
  next
    case False
    with Cons show ?thesis by simp
  qed
qed


section \<open>The insertion-order record\<close>

text \<open>
  C6. On a table that holds at most one \<open>WorksLocal\<close> row per \<open>works_id\<close> (the
  column is unique), \<open>WorksLocal.create_if_not_exist\<close> returns a record of the work
  and leaves exactly one row for it: on the first sighting the row is new and pending,
  on every later call the session is only flushed and the row found is returned. The
  rows that have their \<open>local_id\<close> are in the table afterwards as they were, so no
  \<open>local_id\<close> is assigned twice, and the table still holds one row per work at most.
\<close>

theorem create_if_not_exist_once:
  assumes "distinct (map wl_works_id (works_local_tbl session))"
  shows "\<exists>w s1. WorksLocal_create_if_not_exist session wid = Inr (w, s1)
     \<and> wl_works_id w = wid
     \<and> w \<in> set (works_local_tbl s1)
     \<and> distinct (map wl_works_id (works_local_tbl s1))
     \<and> length (filter (\<lambda>r. wl_works_id r = wid) (works_local_tbl s1)) = 1
     \<and> (wid \<in> set (map wl_works_id (works_local_tbl session)) \<longrightarrow> s1 = flush session)
     \<and> (wid \<notin> set (map wl_works_id (works_local_tbl session)) \<longrightarrow>
          works_local_tbl s1 = works_local_tbl (flush session) @ [w] \<and> local_id w = None)
     \<and> (\<forall>r \<in> set (works_local_tbl session). local_id r \<noteq> None \<longrightarrow> r \<in> set (works_local_tbl s1))"
proof -
  let ?t = "works_local_tbl (flush session)"
  have d: "distinct (map wl_works_id ?t)"
    using assms by simp
  have q: "one_or_none (filter (\<lambda>r. wl_works_id r = wid) ?t)
      = Inr (if wid \<in> set (map wl_works_id ?t)
             then Some (the (find (\<lambda>r. wl_works_id r = wid) ?t)) else None)"
    by (rule one_or_none_distinct [OF d])
  have keep: "\<forall>r \<in> set (works_local_tbl session). local_id r \<noteq> None \<longrightarrow> r \<in> set ?t"
    by (simp add: flush_keeps_assigned)
  show ?thesis
  proof (cases "wid \<in> set (map wl_works_id (works_local_tbl session))")
    case True
    then have m: "wid \<in> set (map wl_works_id ?t)" by simp
    let ?w = "the (find (\<lambda>r. wl_works_id r = wid) ?t)"
    have w: "?w \<in> set ?t" "wl_works_id ?w = wid"
      using find_in_set [OF m] by simp_all
    have r: "WorksLocal_create_if_not_exist session wid = Inr (?w, flush session)"
      using q m by (simp add: WorksLocal_create_if_not_exist_def Let_def raise_bind_def)
    have one: "length (filter (\<lambda>r. wl_works_id r = wid) ?t) = 1"
      by (rule filter_key_distinct [OF d m])
    show ?thesis
      using r w d one keep True by auto
  next
    case False
    then have m: "wid \<notin> set (map wl_works_id ?t)" by simp
    let ?w = "\<lparr>local_id = None, wl_works_id = wid\<rparr>"
    let ?s1 = "(flush session)\<lparr>works_local_tbl := ?t @ [?w]\<rparr>"
    have r: "WorksLocal_create_if_not_exist session wid = Inr (?w, ?s1)"
      using q m by (simp add: WorksLocal_create_if_not_exist_def Let_def raise_bind_def)
    have e: "filter (\<lambda>r. wl_works_id r = wid) ?t = []"
      by (rule filter_key_absent [OF m])
    have d1: "distinct (map wl_works_id (works_local_tbl ?s1))"
      using d m by simp
    have one: "length (filter (\<lambda>r. wl_works_id r = wid) (works_local_tbl ?s1)) = 1"
      using e by simp
    have keep1: "\<forall>r \<in> set (works_local_tbl session). local_id r \<noteq> None \<longrightarrow> r \<in> set (works_local_tbl ?s1)"
      using keep by simp
    show ?thesis
      using r d1 one keep1 False by auto
  qed
qed

theorem create_if_not_exist_once_witness:
  "distinct (map wl_works_id (works_local_tbl empty_session))
   \<and> WorksLocal_create_if_not_exist empty_session 5
       = Inr (\<lparr>local_id = None, wl_works_id = 5\<rparr>,
              empty_session\<lparr>works_local_tbl := [\<lparr>local_id = None, wl_works_id = 5\<rparr>]\<rparr>)
   \<and> (\<exists>w s1. WorksLocal_create_if_not_exist empty_session 5 = Inr (w, s1)
        \<and> length (filter (\<lambda>r. wl_works_id r = 5) (works_local_tbl s1)) = 1)
   \<and> distinct (map wl_works_id
        (works_local_tbl (empty_session\<lparr>works_local_tbl := [\<lparr>local_id = None, wl_works_id = 5\<rparr>]\<rparr>)))
   \<and> WorksLocal_create_if_not_exist
         (empty_session\<lparr>works_local_tbl := [\<lparr>local_id = None, wl_works_id = 5\<rparr>]\<rparr>) 5
       = Inr (\<lparr>local_id = Some 1, wl_works_id = 5\<rparr>,
              empty_session\<lparr>works_local_tbl := [\<lparr>local_id = Some 1, wl_works_id = 5\<rparr>]\<rparr>)
   \<and> (\<exists>w s1. WorksLocal_create_if_not_exist
                 (empty_session\<lparr>works_local_tbl := [\<lparr>local_id = None, wl_works_id = 5\<rparr>]\<rparr>) 5
               = Inr (w, s1)
        \<and> length (filter (\<lambda>r. wl_works_id r = 5) (works_local_tbl s1)) = 1)"
proof -
  let ?s1 = "empty_session\<lparr>works_local_tbl := [\<lparr>local_id = None, wl_works_id = 5\<rparr>]\<rparr>"
  have h: "distinct (map wl_works_id (works_local_tbl empty_session))"
    by (simp add: empty_session_def)
  have h1: "distinct (map wl_works_id (works_local_tbl ?s1))"
    by simp
  have a: "WorksLocal_create_if_not_exist empty_session 5
      = Inr (\<lparr>local_id = None, wl_works_id = 5\<rparr>, ?s1)"
    by code_simp
  have b: "WorksLocal_create_if_not_exist ?s1 5
      = Inr (\<lparr>local_id = Some 1, wl_works_id = 5\<rparr>,
             empty_session\<lparr>works_local_tbl := [\<lparr>local_id = Some 1, wl_works_id = 5\<rparr>]\<rparr>)"
    by code_simp
  have t: "\<exists>w s1. WorksLocal_create_if_not_exist empty_session 5 = Inr (w, s1)
        \<and> length (filter (\<lambda>r. wl_works_id r = 5) (works_local_tbl s1)) = 1"
    using create_if_not_exist_once [OF h, of 5] by blast
  have t1: "\<exists>w s1. WorksLocal_create_if_not_exist ?s1 5 = Inr (w, s1)
        \<and> length (filter (\<lambda>r. wl_works_id r = 5) (works_local_tbl s1)) = 1"
    using create_if_not_exist_once [OF h1, of 5] by blast
  show ?thesis
    using h h1 a b t t1 by blast
qed


section \<open>Read-only sessions\<close>








text \<open>A session opened for writing does persist what it commits.\<close>

lemma read_write_session_persists:
  "get_session db (Some False) [Add f, Commit] None = (sessionmaker (f db), None)"
  by (simp add: get_session_def open_session_def sessionmaker_def session_commit_def
        SessionTransaction_commit_def session_flush_def Session_flush_def session_close_def Let_def)

text \<open>A write through a read-only session is accepted and stays in the unit of work.\<close>

lemma swallowed_add_example:
  "run_body [Add Suc, Flush, Commit] (open_session (0::nat) None)
     = ((open_session 0 None)\<lparr>pending := [Suc]\<rparr>, None)"
  "get_session (0::nat) None [Add Suc, Flush, Commit] None = (open_session 0 None, None)"
  by (simp_all add: get_session_def open_session_def sessionmaker_def session_commit_def
        session_flush_def session_close_def Let_def)

text \<open>
  A commit on the transaction object of a read-only session with a change in its unit
  of work is rejected: the patched \<open>flush\<close> cannot send the change.
\<close>

lemma transaction_commit_unflushed_example:
  "get_session (0::nat) None [Add Suc, Transaction_commit, Execute_ddl Suc] None
     = (open_session 0 None, Some FlushError)"
  by (simp add: get_session_def open_session_def sessionmaker_def SessionTransaction_commit_def
        session_flush_def session_close_def session_rollback_def Let_def)





section \<open>\<open>Works.from_json\<close>: the steps and the row\<close>

lemma raise_bind_Inr_iff: "raise_bind m f = Inr y \<longleftrightarrow> (\<exists>x. m = Inr x \<and> f x = Inr y)"
  by (cases m) (simp_all add: raise_bind_def)

lemma raise_bind_Inl_iff:
  "raise_bind m f = Inl e \<longleftrightarrow> m = Inl e \<or> (\<exists>x. m = Inr x \<and> f x = Inl e)"
  by (cases m) (simp_all add: raise_bind_def)

lemma one_or_none_Inl: "one_or_none rows = Inl e \<Longrightarrow> e = MultipleResultsFound"
  by (auto simp: one_or_none_def split: list.splits)

lemma from_json_bookmark_rate_eq:
  "from_json_bookmark_rate j =
     Inr (case (j_total_bookmarks j, j_total_view j) of
            (Some b, Some v) \<Rightarrow>
              if b \<noteq> 0 \<and> v \<noteq> 0 then Some (py_round (to_double (of_int b / of_int v)) 5) else None
          | _ \<Rightarrow> None)"
  by (simp add: from_json_bookmark_rate_def truthy_int_def py_truediv_def raise_bind_def
           split: option.splits)

lemma Works_from_json_steps:
  assumes "Works_from_json iso_to_datetime session j lang ugoira_json tags_cache = Inr (w, s', cache')"
  obtains x_caption s1 x_rate x_tags s2 x_date x_image_urls s3 x_ugoira s4 where
    "from_json_caption session j = Inr (x_caption, s1)"
    "from_json_bookmark_rate j = Inr x_rate"
    "from_json_tags s1 j lang tags_cache = Inr (x_tags, s2, cache')"
    "from_json_create_date iso_to_datetime j = Inr x_date"
    "WorksImageURLs_from_works_json s2 j False = Inr (x_image_urls, s3)"
    "from_json_ugoira s3 j ugoira_json = Inr (x_ugoira, s4)"
    "from_json_upsert s4 (from_json_kv j x_caption x_rate x_tags x_date x_image_urls x_ugoira)
       = Inr (w, s')"
  using assms unfolding Works_from_json_def raise_bind_Inr_iff
  by (auto simp: raise_bind_Inr_iff)

lemma one_or_none_Some: "one_or_none rows = Inr (Some x) \<Longrightarrow> rows = [x]"
  by (auto simp: one_or_none_def split: list.splits)

lemma one_or_none_None: "one_or_none rows = Inr None \<Longrightarrow> rows = []"
  by (auto simp: one_or_none_def split: list.splits)

lemma set_relationships_works_tbl [simp]:
  "works_tbl (set_relationships kv b s) = works_tbl s"
  by (simp add: set_relationships_def Let_def split: option.splits)

lemma from_json_upsert_row:
  assumes "from_json_upsert s kv = Inr (w, s')"
  shows "works_id w = kv_works_id kv \<and> author_id w = kv_author_id kv
       \<and> works_type w = kv_works_type kv \<and> title w = kv_title kv
       \<and> page_count w = kv_page_count kv \<and> total_views w = kv_total_views kv
       \<and> total_bookmarks w = kv_total_bookmarks kv \<and> is_bookmarked w = kv_is_bookmarked kv
       \<and> bookmark_rate w = kv_bookmark_rate kv \<and> create_date w = kv_create_date kv"
  using assms
  by (auto simp: from_json_upsert_def Let_def raise_bind_Inr_iff Works_init_def dict_setattr_def
           split: option.splits)


lemma filter_singleton_mem: "filter P rows = [x] \<Longrightarrow> x \<in> set rows \<and> P x"
proof -
  assume "filter P rows = [x]"
  then have "x \<in> set (filter P rows)" by simp
  then show ?thesis by simp
qed

lemma replace_row_mem:
  "x \<in> set rows \<Longrightarrow> key x = key obj \<Longrightarrow> obj \<in> set (replace_row key obj rows)"
  by (force simp: replace_row_def)

lemma from_json_upsert_cases:
  assumes "from_json_upsert s kv = Inr (w, s')"
  obtains
    (created) "filter (\<lambda>w. works_id w = kv_works_id kv) (works_tbl s) = []"
      "w = Works_init kv"
      "s' = set_relationships kv False ((flush s)\<lparr>works_tbl := works_tbl s @ [w]\<rparr>)"
  | (updated) w0 where "filter (\<lambda>w. works_id w = kv_works_id kv) (works_tbl s) = [w0]"
      "w = dict_setattr w0 kv"
      "s' = set_relationships kv True ((flush s)\<lparr>works_tbl := replace_row works_id w (works_tbl s)\<rparr>)"
proof -
  let ?q = "one_or_none (filter (\<lambda>w. works_id w = kv_works_id kv) (works_tbl (flush s)))"
  from assms obtain found where q: "?q = Inr found"
    unfolding from_json_upsert_def Let_def raise_bind_Inr_iff by blast
  show ?thesis
  proof (cases found)
    case None
    with q have "filter (\<lambda>w. works_id w = kv_works_id kv) (works_tbl s) = []"
      using one_or_none_None by fastforce
    moreover from assms q None have "w = Works_init kv"
      "s' = set_relationships kv False ((flush s)\<lparr>works_tbl := works_tbl s @ [w]\<rparr>)"
      by (auto simp: from_json_upsert_def Let_def raise_bind_def)
    ultimately show ?thesis by (rule created)
  next
    case (Some w0)
    with q have "filter (\<lambda>w. works_id w = kv_works_id kv) (works_tbl s) = [w0]"
      using one_or_none_Some by fastforce
    moreover from assms q Some have "w = dict_setattr w0 kv"
      "s' = set_relationships kv True ((flush s)\<lparr>works_tbl := replace_row works_id w (works_tbl s)\<rparr>)"
      by (auto simp: from_json_upsert_def Let_def raise_bind_def)
    ultimately show ?thesis by (rule updated)
  qed
qed

lemma from_json_upsert_stored:
  assumes "from_json_upsert s kv = Inr (w, s')"
  shows "w \<in> set (works_tbl s')"
  using assms
proof (cases rule: from_json_upsert_cases)
  case created
  then show ?thesis by simp
next
  case (updated w0)
  then have "w0 \<in> set (works_tbl s) \<and> works_id w0 = kv_works_id kv"
    using filter_singleton_mem by fastforce
  then have "w \<in> set (replace_row works_id w (works_tbl s))"
    using updated(2) by (intro replace_row_mem [where x = w0]) (simp_all add: dict_setattr_def)
  with updated show ?thesis by simp
qed


lemma Works_from_json_bookmark_rate:
  assumes "Works_from_json iso_to_datetime session j lang ugoira_json tags_cache = Inr (w, s', cache')"
  shows "w \<in> set (works_tbl s')
       \<and> bookmark_rate w =
           (case (j_total_bookmarks j, j_total_view j) of
              (Some b, Some v) \<Rightarrow>
                if b \<noteq> 0 \<and> v \<noteq> 0 then Some (py_round (to_double (of_int b / of_int v)) 5) else None
            | _ \<Rightarrow> None)"
proof -
  from assms obtain x_caption x_rate x_tags x_date x_image_urls x_ugoira s4 where
    r: "from_json_bookmark_rate j = Inr x_rate" and
    u: "from_json_upsert s4 (from_json_kv j x_caption x_rate x_tags x_date x_image_urls x_ugoira)
       = Inr (w, s')"
    by (rule Works_from_json_steps)
  have "bookmark_rate w = x_rate"
    using from_json_upsert_row [OF u] by (simp add: from_json_kv_def)
  moreover have "w \<in> set (works_tbl s')"
    by (rule from_json_upsert_stored [OF u])
  ultimately show ?thesis
    using r by (simp add: from_json_bookmark_rate_eq)
qed

subsection \<open>The exceptions of \<open>Works.from_json\<close>\<close>

lemma WorksCaption_get_by_id_Inl:
  "WorksCaption_get_by_id s wid save = Inl e \<Longrightarrow> e = MultipleResultsFound"
  by (auto simp: WorksCaption_get_by_id_def Let_def raise_bind_Inl_iff
           dest: one_or_none_Inl split: option.splits)

lemma from_json_caption_Inl: "from_json_caption s j = Inl e \<Longrightarrow> e = MultipleResultsFound"
  by (auto simp: from_json_caption_def Let_def raise_bind_Inl_iff
           dest: WorksCaption_get_by_id_Inl split: if_splits)

lemma query_tag_Inl: "query_tag s n = Inl e \<Longrightarrow> e = MultipleResultsFound"
  by (auto simp: query_tag_def Let_def raise_bind_Inl_iff dest: one_or_none_Inl)

lemma from_tags_loop_Inl:
  "from_tags_loop s lang cache seen r xs = Inl e \<Longrightarrow> e = MultipleResultsFound"
proof (induction xs arbitrary: s cache seen r)
  case Nil
  then show ?case by simp
next
  case (Cons x xs)
  show ?case
  proof (cases "name x \<in> seen")
    case True
    with Cons show ?thesis by simp
  next
    case False
    let ?look = "case map_of cache (name x) of Some t \<Rightarrow> Inr (Some t, s) | None \<Rightarrow> query_tag s (name x)"
    show ?thesis
    proof (cases ?look)
      case (Inl e')
      with Cons.prems False have "e' = e"
        by (simp add: raise_bind_def)
      moreover from Inl have "e' = MultipleResultsFound"
        by (auto dest: query_tag_Inl split: option.splits)
      ultimately show ?thesis by simp
    next
      case (Inr p)
      obtain found s1 where p: "p = (found, s1)" by (cases p)
      obtain t s2 where n: "(case found of None \<Rightarrow> new_tag s1 (name x) | Some t \<Rightarrow> (t, s1)) = (t, s2)"
        by (cases "case found of None \<Rightarrow> new_tag s1 (name x) | Some t \<Rightarrow> (t, s1)")
      from Cons.prems False Inr p n
      have "from_tags_loop (merge_translation s2 t lang (translated_name x)) lang
              (AList.update (name x) t cache) (insert (name x) seen) (r @ [t]) xs = Inl e"
        by (simp add: raise_bind_def)
      then show ?thesis by (rule Cons.IH)
    qed
  qed
qed

lemma from_json_tags_Inl: "from_json_tags s j lang c = Inl e \<Longrightarrow> e = MultipleResultsFound"
  by (auto simp: from_json_tags_def Tag_from_tags_json_def dest: from_tags_loop_Inl split: if_splits)

lemma from_json_create_date_Inl:
  "from_json_create_date iso_to_datetime j = Inl e \<Longrightarrow> \<exists>d. iso_to_datetime d = Inl e"
  by (auto simp: from_json_create_date_def raise_bind_Inl_iff split: option.splits if_splits)

lemma WorksImageURLs_get_by_id_Inl:
  "WorksImageURLs_get_by_id s wid pg c save = Inl e \<Longrightarrow> e = MultipleResultsFound"
  by (auto simp: WorksImageURLs_get_by_id_def Let_def raise_bind_Inl_iff
           dest: one_or_none_Inl split: option.splits if_splits)

lemma meta_pages_loop_Inl:
  "meta_pages_loop s wid save pg r us = Inl e \<Longrightarrow> e \<in> {MultipleResultsFound, AttributeError}"
proof (induction us arbitrary: s pg r)
  case Nil
  then show ?case by simp
next
  case (Cons u us)
  show ?case
  proof (cases "WorksImageURLs_get_by_id s wid pg True save")
    case (Inl e')
    with Cons.prems have "e' = e" by (simp add: raise_bind_def)
    with Inl show ?thesis using WorksImageURLs_get_by_id_Inl by blast
  next
    case (Inr p)
    obtain obj s1 where p: "p = (obj, s1)" by (cases p)
    show ?thesis
    proof (cases obj)
      case None
      with Cons.prems Inr p show ?thesis by (simp add: raise_bind_def)
    next
      case (Some ob)
      obtain o' s2 where su: "set_urls ob (u_square_medium u) (u_medium u) (u_large u) (u_original u) s1 = (o', s2)"
        by (cases "set_urls ob (u_square_medium u) (u_medium u) (u_large u) (u_original u) s1")
      from Cons.prems Inr p Some su
      have "meta_pages_loop s2 wid save (pg + 1) (r @ [o']) us = Inl e"
        by (simp add: raise_bind_def)
      then show ?thesis by (rule Cons.IH)
    qed
  qed
qed

lemma WorksImageURLs_from_works_json_Inl:
  "WorksImageURLs_from_works_json s j save = Inl e
   \<Longrightarrow> e \<in> {MultipleResultsFound, AttributeError, TypeError}"
  by (auto simp: WorksImageURLs_from_works_json_def raise_bind_Inl_iff Let_def
           dest: meta_pages_loop_Inl WorksImageURLs_get_by_id_Inl
           split: option.splits if_splits prod.splits)

lemma Ugoira_from_json_Inl: "Ugoira_from_json s wid uj save = Inl e \<Longrightarrow> e = MultipleResultsFound"
  by (auto simp: Ugoira_from_json_def Let_def raise_bind_Inl_iff
           dest: one_or_none_Inl split: option.splits)

lemma from_json_ugoira_Inl: "from_json_ugoira s j uj = Inl e \<Longrightarrow> e = MultipleResultsFound"
  by (auto simp: from_json_ugoira_def raise_bind_Inl_iff
           dest: Ugoira_from_json_Inl split: option.splits)

lemma from_json_upsert_Inl: "from_json_upsert s kv = Inl e \<Longrightarrow> e = MultipleResultsFound"
  by (auto simp: from_json_upsert_def Let_def raise_bind_Inl_iff
           dest: one_or_none_Inl split: option.splits)

lemma Works_from_json_Inl:
  assumes "Works_from_json iso_to_datetime session j lang ugoira_json tags_cache = Inl e"
  shows "e \<in> {MultipleResultsFound, AttributeError, TypeError} \<or> (\<exists>d. iso_to_datetime d = Inl e)"
  using assms
  by (auto simp: Works_from_json_def raise_bind_Inl_iff from_json_bookmark_rate_eq
           dest: from_json_caption_Inl from_json_tags_Inl from_json_create_date_Inl
                 WorksImageURLs_from_works_json_Inl from_json_ugoira_Inl from_json_upsert_Inl)


section \<open>The bookmark rate\<close>

text \<open>
  C4, as the code has it. The work \<open>Works.from_json\<close> returns is a row of the
  session, and its \<open>bookmark_rate\<close> is \<open>round(total_bookmarks / total_view, 5)\<close>
  (the float quotient, rounded as \<open>round\<close> rounds a float) when both counts are
  present and not zero, and \<open>None\<close> in every other case: a count that is missing,
  \<open>None\<close> or \<open>0\<close>.
\<close>

theorem bookmark_rate_derived:
  assumes "Works_from_json iso_to_datetime session j lang ugoira_json tags_cache = Inr (w, s', cache')"
  shows "w \<in> set (works_tbl s')
       \<and> bookmark_rate w =
           (case (j_total_bookmarks j, j_total_view j) of
              (Some b, Some v) \<Rightarrow>
                if b \<noteq> 0 \<and> v \<noteq> 0 then Some (py_round (to_double (of_int b / of_int v)) 5) else None
            | _ \<Rightarrow> None)"
  using assms by (rule Works_from_json_bookmark_rate)

text \<open>
  One bookmark and 320 views: the quotient \<open>0.003125\<close> is a decimal tie, the float
  nearest to it lies above it, and the rate is the float \<open>0.00313\<close>.
\<close>

lemma rate_1_320:
  "from_json_bookmark_rate (example_work\<lparr>j_total_bookmarks := Some 1, j_total_view := Some 320\<rparr>)
     = Inr (Some (to_double (313 / 100000)))"
proof -
  have q: "py_truediv 1 320 = Inr (to_double (1 / 320))"
    by (simp add: py_truediv_def)
  have r: "py_round (to_double (1 / 320)) 5 = to_double (313 / 100000)"
    by code_simp
  show ?thesis
    by (simp add: from_json_bookmark_rate_def truthy_int_def raise_bind_def q r)
qed

lemma to_double_examples:
  "to_double (1 / 320) = 3602879701896397 / 2 ^ 60"
  "to_double (313 / 100000) = 3608644309419431 / 2 ^ 60"
  "1 / 320 < to_double (1 / 320)"
  by code_simp+

theorem bookmark_rate_derived_witness:
  "Works_from_json example_iso_to_datetime empty_session
       (example_work\<lparr>j_total_bookmarks := Some 1, j_total_view := Some 320\<rparr>) ''en'' None []
     = Inr (example_row\<lparr>total_views := Some 320, total_bookmarks := Some 1,
                        bookmark_rate := Some (to_double (313 / 100000))\<rparr>,
            empty_session\<lparr>works_tbl :=
              [example_row\<lparr>total_views := Some 320, total_bookmarks := Some 1,
                           bookmark_rate := Some (to_double (313 / 100000))\<rparr>]\<rparr>, [])
   \<and> bookmark_rate (example_row\<lparr>total_views := Some 320, total_bookmarks := Some 1,
                                 bookmark_rate := Some (to_double (313 / 100000))\<rparr>)
     = Some (py_round (to_double (1 / 320)) 5)"
proof -
  let ?j = "example_work\<lparr>j_total_bookmarks := Some 1, j_total_view := Some 320\<rparr>"
  let ?w = "example_row\<lparr>total_views := Some 320, total_bookmarks := Some 1,
                        bookmark_rate := Some (to_double (313 / 100000))\<rparr>"
  have cap: "from_json_caption empty_session ?j = Inr (None, empty_session)"
    by code_simp
  have tg: "from_json_tags empty_session ?j ''en'' [] = Inr ([], empty_session, [])"
    by code_simp
  have dt: "from_json_create_date example_iso_to_datetime ?j = Inr None"
    by code_simp
  have im: "WorksImageURLs_from_works_json empty_session ?j False = Inr ([], empty_session)"
    by code_simp
  have ug: "from_json_ugoira empty_session ?j None = Inr (None, empty_session)"
    by code_simp
  have up: "from_json_upsert empty_session
              (from_json_kv ?j None (Some (to_double (313 / 100000))) [] None [] None)
            = Inr (?w, empty_session\<lparr>works_tbl := [?w]\<rparr>)"
    by code_simp
  have h: "Works_from_json example_iso_to_datetime empty_session ?j ''en'' None []
     = Inr (?w, empty_session\<lparr>works_tbl := [?w]\<rparr>, [])"
    unfolding Works_from_json_def
    by (simp add: cap rate_1_320 tg dt im ug up raise_bind_def)
  show ?thesis
    using h bookmark_rate_derived [OF h] by simp
qed

text \<open>
  The claim as the specification states it fails on a work with views and no bookmark:
  the rate \<open>round(0 / 100, 5)\<close> is computable and is \<open>0\<close>, both counts are present,
  and the stored rate is \<open>None\<close>.
\<close>

theorem bookmark_rate_zero_bookmarks_counterexample:
  "j_total_bookmarks example_work = Some 0 \<and> j_total_view example_work = Some 100
   \<and> raise_bind (py_truediv 0 100) (\<lambda>q. Inr (py_round q 5)) = Inr 0
   \<and> Works_from_json example_iso_to_datetime empty_session example_work ''en'' None []
       = Inr (example_row, empty_session\<lparr>works_tbl := [example_row]\<rparr>, [])
   \<and> bookmark_rate example_row = None"
proof -
  have "Works_from_json example_iso_to_datetime empty_session example_work ''en'' None []
       = Inr (example_row, empty_session\<lparr>works_tbl := [example_row]\<rparr>, [])"
    by code_simp
  moreover have "raise_bind (py_truediv 0 100) (\<lambda>q. Inr (py_round q 5)) = Inr 0"
    by code_simp
  ultimately show ?thesis
    by (simp add: example_work_def example_row_def)
qed

text \<open>
  C10. \<open>Works.from_json\<close> never raises \<open>ZeroDivisionError\<close> (the helper
  \<open>iso_to_datetime\<close>, which is not part of it, is assumed not to): the derivation of
  the rate raises nothing at all, and when \<open>total_view\<close> or \<open>total_bookmarks\<close> is
  \<open>0\<close>, absent or \<open>None\<close> it gives \<open>None\<close>, which is the rate of the work returned.
\<close>

theorem bookmark_rate_no_zero_division:
  assumes "\<forall>d. iso_to_datetime d \<noteq> Inl ZeroDivisionError"
  shows "Works_from_json iso_to_datetime session j lang ugoira_json tags_cache
           \<noteq> Inl ZeroDivisionError
       \<and> (\<exists>r. from_json_bookmark_rate j = Inr r)
       \<and> (j_total_view j = None \<or> j_total_view j = Some 0
            \<or> j_total_bookmarks j = None \<or> j_total_bookmarks j = Some 0 \<longrightarrow>
            from_json_bookmark_rate j = Inr None
            \<and> (\<forall>w s' cache'.
                  Works_from_json iso_to_datetime session j lang ugoira_json tags_cache
                    = Inr (w, s', cache') \<longrightarrow> bookmark_rate w = None))"
proof -
  have "Works_from_json iso_to_datetime session j lang ugoira_json tags_cache
           \<noteq> Inl ZeroDivisionError"
    using Works_from_json_Inl [of iso_to_datetime session j lang ugoira_json tags_cache
            ZeroDivisionError] assms
    by auto
  moreover have "\<exists>r. from_json_bookmark_rate j = Inr r"
    by (simp add: from_json_bookmark_rate_eq)
  moreover have "from_json_bookmark_rate j = Inr None"
    if "j_total_view j = None \<or> j_total_view j = Some 0
        \<or> j_total_bookmarks j = None \<or> j_total_bookmarks j = Some 0"
    using that by (auto simp: from_json_bookmark_rate_eq split: option.splits)
  moreover have "bookmark_rate w = None"
    if "j_total_view j = None \<or> j_total_view j = Some 0
        \<or> j_total_bookmarks j = None \<or> j_total_bookmarks j = Some 0"
      and "Works_from_json iso_to_datetime session j lang ugoira_json tags_cache
             = Inr (w, s', cache')" for w s' cache'
    using that Works_from_json_bookmark_rate [OF that(2)]
    by (auto split: option.splits)
  ultimately show ?thesis by blast
qed

theorem bookmark_rate_no_zero_division_witness:
  "(\<forall>d. example_iso_to_datetime d \<noteq> Inl ZeroDivisionError)
   \<and> j_total_view (example_work\<lparr>j_total_bookmarks := Some 5, j_total_view := Some 0\<rparr>) = Some 0
   \<and> Works_from_json example_iso_to_datetime empty_session
        (example_work\<lparr>j_total_bookmarks := Some 5, j_total_view := Some 0\<rparr>) ''en'' None []
       = Inr (example_row\<lparr>total_views := Some 0, total_bookmarks := Some 5\<rparr>,
              empty_session\<lparr>works_tbl :=
                [example_row\<lparr>total_views := Some 0, total_bookmarks := Some 5\<rparr>]\<rparr>, [])
   \<and> bookmark_rate (example_row\<lparr>total_views := Some 0, total_bookmarks := Some 5\<rparr>) = None
   \<and> from_json_bookmark_rate (example_work\<lparr>j_total_bookmarks := Some 5, j_total_view := Some 0\<rparr>)
       = Inr None"
proof -
  let ?j = "example_work\<lparr>j_total_bookmarks := Some 5, j_total_view := Some 0\<rparr>"
  have h: "\<forall>d. example_iso_to_datetime d \<noteq> Inl ZeroDivisionError"
    by (simp add: example_iso_to_datetime_def)
  have v: "j_total_view ?j = Some 0"
    by simp
  have e: "Works_from_json example_iso_to_datetime empty_session ?j ''en'' None []
       = Inr (example_row\<lparr>total_views := Some 0, total_bookmarks := Some 5\<rparr>,
              empty_session\<lparr>works_tbl :=
                [example_row\<lparr>total_views := Some 0, total_bookmarks := Some 5\<rparr>]\<rparr>, [])"
    by code_simp
  have t: "from_json_bookmark_rate ?j = Inr None
       \<and> bookmark_rate (example_row\<lparr>total_views := Some 0, total_bookmarks := Some 5\<rparr>) = None"
    using bookmark_rate_no_zero_division [OF h, of empty_session ?j "''en''" None "[]"] v e
    by blast
  show ?thesis
    using h v e t by blast
qed


section \<open>Tags\<close>

subsection \<open>The loop of \<open>from_tags_json\<close>\<close>

lemma first_occurrences_Cons:
  "rev (remdups (rev (n # ns))) = n # filter (\<lambda>m. m \<noteq> n) (rev (remdups (rev ns)))"
proof -
  have "remdups (xs @ [n]) = filter (\<lambda>m. m \<noteq> n) (remdups xs) @ [n]" for xs
    by (induction xs) auto
  then show ?thesis
    by (simp add: rev_filter)
qed

lemma query_tag_Inr:
  assumes "query_tag s n = Inr (found, s1)"
  shows "s1 = flush s"
    and "found = None \<Longrightarrow> filter (\<lambda>t. tag_text (tag_objects s ! t) = n) (tags_tbl s) = []"
    and "found = Some t \<Longrightarrow> filter (\<lambda>t. tag_text (tag_objects s ! t) = n) (tags_tbl s) = [t]"
  using assms
  by (auto simp: query_tag_def Let_def raise_bind_Inr_iff dest: one_or_none_None one_or_none_Some)

lemma merge_translation_simps [simp]:
  "tags_tbl (merge_translation s t lang tr) = tags_tbl s"
  "works_tbl (merge_translation s t lang tr) = works_tbl s"
  "works_local_tbl (merge_translation s t lang tr) = works_local_tbl s"
  "users_tbl (merge_translation s t lang tr) = users_tbl s"
  "users_details_tbl (merge_translation s t lang tr) = users_details_tbl s"
  "ugoiras_tbl (merge_translation s t lang tr) = ugoiras_tbl s"
  "works_image_urls_tbl (merge_translation s t lang tr) = works_image_urls_tbl s"
  "works_captions_tbl (merge_translation s t lang tr) = works_captions_tbl s"
  "length (tag_objects (merge_translation s t lang tr)) = length (tag_objects s)"
  by (simp_all add: merge_translation_def split: option.splits)

lemma set_translation_simps [simp]:
  "tag_text (set_translation lang tr t) = tag_text t"
  "tag_id (set_translation lang tr t) = tag_id t"
  by (simp_all add: set_translation_def Let_def)

lemma merge_translation_nth:
  "tag_objects (merge_translation s t lang tr) ! i =
     (if i = t \<and> t < length (tag_objects s) \<and> tr \<noteq> None \<and> tr \<noteq> Some []
      then set_translation lang (the tr) (tag_objects s ! t) else tag_objects s ! i)"
  by (auto simp: merge_translation_def list_update_beyond split: option.splits)

lemma merge_translation_tag_text [simp]:
  "tag_text (tag_objects (merge_translation s t lang tr) ! i) = tag_text (tag_objects s ! i)"
  by (auto simp: merge_translation_nth)

lemma new_tag_simps:
  "fst (new_tag s n) = length (tag_objects s)"
  "tag_objects (snd (new_tag s n))
     = tag_objects s @ [\<lparr>tag_id = next_tag_id s, tag_text = n, translation = []\<rparr>]"
  "tags_tbl (snd (new_tag s n)) = tags_tbl s @ [length (tag_objects s)]"
  by (simp_all add: new_tag_def Let_def)

text \<open>One turn of the loop on a name not seen yet.\<close>

lemma from_tags_loop_step:
  assumes "name x \<notin> seen"
    and "from_tags_loop s lang c seen r0 (x # xs) = Inr (r, s', c')"
  obtains t s2 where
    "(map_of c (name x) = Some t \<and> s2 = s)
     \<or> (map_of c (name x) = None \<and> s2 = flush s
         \<and> filter (\<lambda>t. tag_text (tag_objects s ! t) = name x) (tags_tbl s) = [t])
     \<or> (map_of c (name x) = None \<and> (t, s2) = new_tag (flush s) (name x)
         \<and> filter (\<lambda>t. tag_text (tag_objects s ! t) = name x) (tags_tbl s) = [])"
    "from_tags_loop (merge_translation s2 t lang (translated_name x)) lang
        (AList.update (name x) t c) (insert (name x) seen) (r0 @ [t]) xs = Inr (r, s', c')"
proof -
  let ?look = "case map_of c (name x) of Some t \<Rightarrow> Inr (Some t, s) | None \<Rightarrow> query_tag s (name x)"
  from assms obtain found s1 where look: "?look = Inr (found, s1)"
    by (auto simp: raise_bind_Inr_iff)
  obtain t s2 where n: "(case found of None \<Rightarrow> new_tag s1 (name x) | Some t \<Rightarrow> (t, s1)) = (t, s2)"
    by (cases "case found of None \<Rightarrow> new_tag s1 (name x) | Some t \<Rightarrow> (t, s1)")
  from assms look n
  have rest: "from_tags_loop (merge_translation s2 t lang (translated_name x)) lang
        (AList.update (name x) t c) (insert (name x) seen) (r0 @ [t]) xs = Inr (r, s', c')"
    by (simp add: raise_bind_def)
  have "(map_of c (name x) = Some t \<and> s2 = s)
     \<or> (map_of c (name x) = None \<and> s2 = flush s
         \<and> filter (\<lambda>t. tag_text (tag_objects s ! t) = name x) (tags_tbl s) = [t])
     \<or> (map_of c (name x) = None \<and> (t, s2) = new_tag (flush s) (name x)
         \<and> filter (\<lambda>t. tag_text (tag_objects s ! t) = name x) (tags_tbl s) = [])"
  proof (cases "map_of c (name x)")
    case (Some t0)
    with look have "found = Some t0" "s1 = s" by simp_all
    with n have "t = t0" "s2 = s" by simp_all
    with Some show ?thesis by simp
  next
    case None
    with look have q: "query_tag s (name x) = Inr (found, s1)" by simp
    show ?thesis
    proof (cases found)
      case None
      with n have "(t, s2) = new_tag s1 (name x)" by simp
      with None \<open>map_of c (name x) = None\<close> show ?thesis
        using query_tag_Inr(1,2) [OF q] by simp
    next
      case (Some t0)
      with n have "t = t0" "s2 = s1" by simp_all
      with Some \<open>map_of c (name x) = None\<close> show ?thesis
        using query_tag_Inr(1,3) [OF q] by simp
    qed
  qed
  then show ?thesis using rest by (rule that)
qed

lemma from_tags_loop_cache_mono:
  "from_tags_loop s lang c seen r0 xs = Inr (r, s', c') \<Longrightarrow> map_of c n = Some t
   \<Longrightarrow> map_of c' n = Some t"
proof (induction xs arbitrary: s c seen r0)
  case Nil
  then show ?case by simp
next
  case (Cons x xs)
  show ?case
  proof (cases "name x \<in> seen")
    case True
    with Cons show ?thesis by simp
  next
    case False
    from False Cons.prems(1) obtain t' s2 where
      res: "(map_of c (name x) = Some t' \<and> s2 = s)
        \<or> (map_of c (name x) = None \<and> s2 = flush s
         \<and> filter (\<lambda>t. tag_text (tag_objects s ! t) = name x) (tags_tbl s) = [t'])
        \<or> (map_of c (name x) = None \<and> (t', s2) = new_tag (flush s) (name x)
         \<and> filter (\<lambda>t. tag_text (tag_objects s ! t) = name x) (tags_tbl s) = [])"
      and rest: "from_tags_loop (merge_translation s2 t' lang (translated_name x)) lang
        (AList.update (name x) t' c) (insert (name x) seen) (r0 @ [t']) xs = Inr (r, s', c')"
      by (rule from_tags_loop_step)
    have "map_of (AList.update (name x) t' c) n = Some t"
      using res Cons.prems(2) by (auto simp: update_conv')
    with rest show ?thesis by (rule Cons.IH)
  qed
qed

lemma from_tags_loop_cache_dom:
  "from_tags_loop s lang c seen r0 xs = Inr (r, s', c') \<Longrightarrow> n \<in> set (map name xs)
   \<Longrightarrow> n \<notin> seen \<or> map_of c n \<noteq> None \<Longrightarrow> map_of c' n \<noteq> None"
proof (induction xs arbitrary: s c seen r0)
  case Nil
  then show ?case by simp
next
  case (Cons x xs)
  show ?case
  proof (cases "name x \<in> seen")
    case True
    show ?thesis
    proof (cases "map_of c n")
      case None
      with Cons.prems True have "n \<in> set (map name xs)" by auto
      with Cons.prems True show ?thesis
        using Cons.IH [of s c seen r0] by simp
    next
      case (Some t)
      then show ?thesis
        using from_tags_loop_cache_mono [OF Cons.prems(1)] by simp
    qed
  next
    case False
    from False Cons.prems(1) obtain t' s2 where
      rest: "from_tags_loop (merge_translation s2 t' lang (translated_name x)) lang
        (AList.update (name x) t' c) (insert (name x) seen) (r0 @ [t']) xs = Inr (r, s', c')"
      by (rule from_tags_loop_step)
    show ?thesis
    proof (cases "n = name x \<or> map_of c n \<noteq> None")
      case True
      then have "\<exists>t. map_of (AList.update (name x) t' c) n = Some t"
        by (auto simp: update_conv')
      then show ?thesis
        using from_tags_loop_cache_mono [OF rest] by auto
    next
      case False
      with Cons.prems have "n \<in> set (map name xs)" "n \<notin> insert (name x) seen"
        by auto
      with rest show ?thesis
        using Cons.IH by blast
    qed
  qed
qed

lemma first_occurrences_unseen:
  "filter (\<lambda>n. n \<notin> seen) (rev (remdups (rev (map name (x # xs))))) =
     (if name x \<in> seen then filter (\<lambda>n. n \<notin> seen) (rev (remdups (rev (map name xs))))
      else name x # filter (\<lambda>n. n \<notin> insert (name x) seen) (rev (remdups (rev (map name xs)))))"
proof -
  let ?F = "rev (remdups (rev (map name xs)))"
  have F: "rev (remdups (rev (map name (x # xs)))) = name x # filter (\<lambda>m. m \<noteq> name x) ?F"
    using first_occurrences_Cons [of "name x" "map name xs"] by simp
  have a: "name x \<in> seen \<Longrightarrow>
      filter (\<lambda>n. n \<notin> seen) (filter (\<lambda>m. m \<noteq> name x) ?F) = filter (\<lambda>n. n \<notin> seen) ?F"
    by (auto intro: filter_cong)
  have b: "filter (\<lambda>n. n \<notin> seen) (filter (\<lambda>m. m \<noteq> name x) ?F)
        = filter (\<lambda>n. n \<notin> insert (name x) seen) ?F"
    by (auto intro: filter_cong)
  show ?thesis
    unfolding F using a b by simp
qed

lemma from_tags_loop_result:
  "from_tags_loop s lang c seen r0 xs = Inr (r, s', c') \<Longrightarrow>
   map Some r = map Some r0
     @ map (map_of c') (filter (\<lambda>n. n \<notin> seen) (rev (remdups (rev (map name xs)))))"
proof (induction xs arbitrary: s c seen r0)
  case Nil
  then show ?case by simp
next
  case (Cons x xs)
  show ?case
  proof (cases "name x \<in> seen")
    case True
    with Cons.prems have "from_tags_loop s lang c seen r0 xs = Inr (r, s', c')" by simp
    then show ?thesis
      unfolding first_occurrences_unseen using True Cons.IH by simp
  next
    case False
    from False Cons.prems(1) obtain t s2 where
      rest: "from_tags_loop (merge_translation s2 t lang (translated_name x)) lang
        (AList.update (name x) t c) (insert (name x) seen) (r0 @ [t]) xs = Inr (r, s', c')"
      by (rule from_tags_loop_step)
    have c': "map_of c' (name x) = Some t"
      using from_tags_loop_cache_mono [OF rest, of "name x" t] by (simp add: update_conv')
    show ?thesis
      unfolding first_occurrences_unseen using False c' Cons.IH [OF rest] by simp
  qed
qed


subsection \<open>The translation merge\<close>

lemma set_translation_exists:
  assumes "\<exists>tt \<in> set (translation t). language tt = lang"
  shows "translation (set_translation lang text t)
       = map (\<lambda>tt. if language tt = lang then tt\<lparr>translation_text := text\<rparr> else tt)
           (translation t)"
  using assms by (simp add: set_translation_def Let_def)

lemma set_translation_new:
  assumes "\<not> (\<exists>tt \<in> set (translation t). language tt = lang)"
  shows "translation (set_translation lang text t)
       = translation t @ [\<lparr>tt_tag_id = tag_id t, language = lang, translation_text = text\<rparr>]"
proof -
  have "map (\<lambda>tt. if language tt = lang then tt\<lparr>translation_text := text\<rparr> else tt)
          (translation t) = translation t"
    using assms by (intro map_idI) auto
  with assms show ?thesis by (simp add: set_translation_def Let_def)
qed

lemma map_language_update:
  "map language (map (\<lambda>tt. if language tt = lang then tt\<lparr>translation_text := text\<rparr> else tt) rows)
     = map language rows"
  by (induction rows) auto

lemma find_language: "find (\<lambda>tt. language tt = l) rows = Some tt \<Longrightarrow> language tt = l"
  by (induction rows) (auto split: if_splits)

lemma set_translation_languages:
  "map language (translation (set_translation lang text t))
     = (if \<exists>tt \<in> set (translation t). language tt = lang
        then map language (translation t) else map language (translation t) @ [lang])"
proof (cases "\<exists>tt \<in> set (translation t). language tt = lang")
  case True
  then show ?thesis
    using map_language_update [of lang _ "translation t"]
    by (simp add: set_translation_exists del: map_map)
next
  case False
  then show ?thesis by (simp add: set_translation_new)
qed

lemma set_translation_distinct:
  "distinct (map language (translation t))
   \<Longrightarrow> distinct (map language (translation (set_translation lang text t)))"
  by (auto simp: set_translation_languages)

lemma find_append_if:
  "find P (xs @ ys) = (case find P xs of None \<Rightarrow> find P ys | Some x \<Rightarrow> Some x)"
  by (induction xs) auto

lemma find_updated_rows_other:
  "l \<noteq> lang \<Longrightarrow>
   map_option translation_text
     (find (\<lambda>tt. language tt = l)
        (map (\<lambda>tt. if language tt = lang then tt\<lparr>translation_text := text\<rparr> else tt) rows))
   = map_option translation_text (find (\<lambda>tt. language tt = l) rows)"
  by (induction rows) auto

lemma find_updated_rows_same:
  "\<exists>tt \<in> set rows. language tt = lang \<Longrightarrow>
   map_option translation_text
     (find (\<lambda>tt. language tt = lang)
        (map (\<lambda>tt. if language tt = lang then tt\<lparr>translation_text := text\<rparr> else tt) rows))
   = Some text"
  by (induction rows) auto

lemma find_no_language:
  "\<not> (\<exists>tt \<in> set rows. language tt = lang) \<Longrightarrow> find (\<lambda>tt. language tt = lang) rows = None"
  by (induction rows) auto

lemma get_translation_set_translation:
  "Tag_get_translation (set_translation lang text t) l
     = (if l = lang then Some text else Tag_get_translation t l)"
proof (cases "\<exists>tt \<in> set (translation t). language tt = lang")
  case True
  show ?thesis
  proof (cases "l = lang")
    case same: True
    show ?thesis
      unfolding Tag_get_translation_def set_translation_exists [OF True] same
      using find_updated_rows_same [OF True] by simp
  next
    case False
    then show ?thesis
      unfolding Tag_get_translation_def set_translation_exists [OF True]
      using find_updated_rows_other [OF False] by simp
  qed
next
  case False
  have "find (\<lambda>tt. language tt = lang) (translation t) = None"
    using False by (rule find_no_language)
  then show ?thesis
    unfolding Tag_get_translation_def set_translation_new [OF False] find_append_if
    by (cases "find (\<lambda>tt. language tt = l) (translation t)") auto
qed

lemma set_translation_text:
  assumes "tt \<in> set (translation (set_translation lang text t))" and "language tt = lang"
  shows "translation_text tt = text"
proof (cases "\<exists>tt \<in> set (translation t). language tt = lang")
  case True
  from assms(1) obtain r where r: "r \<in> set (translation t)"
    "tt = (if language r = lang then r\<lparr>translation_text := text\<rparr> else r)"
    unfolding set_translation_exists [OF True] by auto
  show ?thesis
  proof (cases "language r = lang")
    case True
    with r(2) have "tt = r\<lparr>translation_text := text\<rparr>" by simp
    then show ?thesis by simp
  next
    case False
    with r(2) have "tt = r" by simp
    with assms(2) False show ?thesis by simp
  qed
next
  case False
  from assms(1) have "tt \<in> set (translation t)
      \<or> tt = \<lparr>tt_tag_id = tag_id t, language = lang, translation_text = text\<rparr>"
    unfolding set_translation_new [OF False] by auto
  then show ?thesis
  proof
    assume "tt \<in> set (translation t)"
    with False assms(2) show ?thesis by blast
  next
    assume "tt = \<lparr>tt_tag_id = tag_id t, language = lang, translation_text = text\<rparr>"
    then show ?thesis by simp
  qed
qed

lemma set_translation_as_update:
  "set_translation lang text t = t\<lparr>translation := translation (set_translation lang text t)\<rparr>"
  by (simp add: set_translation_def Let_def)

lemma set_translation_idem:
  "set_translation lang text (set_translation lang text t) = set_translation lang text t"
proof -
  let ?t1 = "set_translation lang text t"
  have ex: "\<exists>tt \<in> set (translation ?t1). language tt = lang"
  proof -
    have "lang \<in> set (map language (translation ?t1))"
      by (auto simp: set_translation_languages)
    then show ?thesis by auto
  qed
  have "map (\<lambda>tt. if language tt = lang then tt\<lparr>translation_text := text\<rparr> else tt)
          (translation ?t1) = translation ?t1"
  proof (rule map_idI)
    fix tt assume "tt \<in> set (translation ?t1)"
    then have "language tt = lang \<Longrightarrow> translation_text tt = text"
      by (rule set_translation_text)
    then show "(if language tt = lang then tt\<lparr>translation_text := text\<rparr> else tt) = tt"
      by simp
  qed
  with ex have tr: "translation (set_translation lang text ?t1) = translation ?t1"
    by (simp add: set_translation_exists)
  show ?thesis
    by (subst set_translation_as_update) (simp add: tr)
qed


end
